theory Spec2Isabelle
  imports Complex_Main
begin

section \<open>Python values used by jicgeometry\<close>

text \<open>
  The module \<^verbatim>\<open>jicgeometry/__init__.py\<close> defines the classes \<^verbatim>\<open>Point2D\<close> and
  \<^verbatim>\<open>Point3D\<close>. Their coordinates are Python numbers, so the embedding starts with the
  Python 3 values the constructors can be handed and the arithmetic the methods call
  (CPython 3, version 3.11 or later: \<^verbatim>\<open>/\<close> is true division, \<^verbatim>\<open>round\<close> rounds
  half to even, and the conversion of an int to text is limited in length).
  Exceptions are values of \<open>error\<close>; a method that can raise returns \<open>error + 'a\<close>.
  The specification names the errors by role: its \<^verbatim>\<open>TypeMismatch\<close> is the
  \<^verbatim>\<open>RuntimeError\<close> of \<^verbatim>\<open>_set_types\<close>, its \<^verbatim>\<open>InvalidArgument\<close> is the
  \<^verbatim>\<open>TypeError\<close> of a failed unpacking in \<^verbatim>\<open>__init__\<close> (as the repository's test
  \<^verbatim>\<open>test_intialisation_raises\<close> has it), and its \<^verbatim>\<open>IndexOutOfRange\<close> is
  \<^verbatim>\<open>IndexError\<close>.
\<close>

datatype error =
  TypeError | ValueError | RuntimeError | IndexError | ZeroDivisionError | OverflowError

definition bind_err :: "error + 'a \<Rightarrow> ('a \<Rightarrow> error + 'b) \<Rightarrow> error + 'b" where
  "bind_err m f = (case m of Inl e \<Rightarrow> Inl e | Inr v \<Rightarrow> f v)"

subsection \<open>Floats: IEEE 754 binary64\<close>

text \<open>
  A Python \<^verbatim>\<open>float\<close> is a binary64 value: a finite number (kept as the rational it
  denotes, \<open>Fin 0\<close> being \<^verbatim>\<open>0.0\<close>), the negative zero, an infinity or a NaN.
\<close>

datatype pyfloat = Fin rat | NegZero | PosInf | NegInf | NaN

definition pow2 :: "int \<Rightarrow> rat" where
  "pow2 e = (if 0 \<le> e then of_int (2 ^ nat e) else 1 / of_int (2 ^ nat (- e)))"

text \<open>Rounding to the nearest integer, a tie going to the even neighbour.\<close>

definition round_half_even :: "rat \<Rightarrow> int" where
  "round_half_even q =
     (let f = \<lfloor>q\<rfloor>; d = q - of_int f
      in if d < 1 / 2 then f
         else if 1 / 2 < d then f + 1
         else if even f then f else f + 1)"

text \<open>The number of binary digits of a positive integer (\<^verbatim>\<open>int.bit_length\<close>).\<close>

function bit_length :: "int \<Rightarrow> int" where
  "bit_length n = (if n \<le> 0 then 0 else 1 + bit_length (n div 2))"
  by pat_completeness auto
termination
  by (relation "measure nat") auto

declare bit_length.simps [simp del]

text \<open>\<open>ilog2 a\<close> is the binary exponent of a positive rational: \<open>2 ^ e \<le> a < 2 ^ (e + 1)\<close>.\<close>

definition ilog2 :: "rat \<Rightarrow> int" where
  "ilog2 a =
     (let (p, q) = quotient_of a;
          d = bit_length p - bit_length q
      in if pow2 d \<le> a then d else d - 1)"

text \<open>
  The binary64 value nearest to a rational (round to nearest, ties to even): 53
  significant bits, the exponent of the last place never below \<open>-1074\<close> (subnormals),
  an infinity from \<open>2 ^ 1024\<close> on, a signed zero when the result underflows.
\<close>

definition round_to_double :: "rat \<Rightarrow> pyfloat" where
  "round_to_double q =
     (if q = 0 then Fin 0
      else
        let a = \<bar>q\<bar>;
            e = max (ilog2 a) (- 1022);
            u = pow2 (e - 52);
            v = of_int (round_half_even (a / u)) * u
        in if pow2 1024 \<le> v then (if 0 < q then PosInf else NegInf)
           else if v = 0 then (if 0 < q then Fin 0 else NegZero)
           else Fin (if 0 < q then v else - v))"

fun is_neg :: "pyfloat \<Rightarrow> bool" where
  "is_neg (Fin q) = (q < 0)"
| "is_neg NegZero = True"
| "is_neg PosInf = False"
| "is_neg NegInf = True"
| "is_neg NaN = False"

fun is_zero :: "pyfloat \<Rightarrow> bool" where
  "is_zero (Fin q) = (q = 0)"
| "is_zero NegZero = True"
| "is_zero _ = False"

fun is_inf :: "pyfloat \<Rightarrow> bool" where
  "is_inf PosInf = True"
| "is_inf NegInf = True"
| "is_inf _ = False"

fun is_nan :: "pyfloat \<Rightarrow> bool" where
  "is_nan NaN = True"
| "is_nan _ = False"

text \<open>The value of a finite float (both zeros are 0).\<close>

fun fin_val :: "pyfloat \<Rightarrow> rat" where
  "fin_val (Fin q) = q"
| "fin_val _ = 0"

definition signed_zero :: "bool \<Rightarrow> pyfloat" where
  "signed_zero neg = (if neg then NegZero else Fin 0)"

definition signed_inf :: "bool \<Rightarrow> pyfloat" where
  "signed_inf neg = (if neg then NegInf else PosInf)"

text \<open>\<^verbatim>\<open>a * b\<close> on floats never raises: it overflows to an infinity.\<close>

definition float_mul :: "pyfloat \<Rightarrow> pyfloat \<Rightarrow> pyfloat" where
  "float_mul a b =
     (if is_nan a \<or> is_nan b then NaN
      else if is_inf a \<or> is_inf b then
        (if is_zero a \<or> is_zero b then NaN else signed_inf (is_neg a \<noteq> is_neg b))
      else
        let q = fin_val a * fin_val b
        in if q = 0 then signed_zero (is_neg a \<noteq> is_neg b) else round_to_double q)"

text \<open>\<^verbatim>\<open>a + b\<close> on floats.\<close>

definition float_add :: "pyfloat \<Rightarrow> pyfloat \<Rightarrow> pyfloat" where
  "float_add a b =
     (if is_nan a \<or> is_nan b then NaN
      else if is_inf a then (if is_inf b \<and> is_neg a \<noteq> is_neg b then NaN else a)
      else if is_inf b then b
      else
        let q = fin_val a + fin_val b
        in if q = 0 then signed_zero (is_neg a \<and> is_neg b) else round_to_double q)"

text \<open>
  \<^verbatim>\<open>a / b\<close> on floats (\<^verbatim>\<open>float_div\<close> of CPython): a zero divisor raises
  \<^verbatim>\<open>ZeroDivisionError\<close> whatever the dividend is; otherwise the IEEE quotient.
\<close>

definition float_truediv :: "pyfloat \<Rightarrow> pyfloat \<Rightarrow> error + pyfloat" where
  "float_truediv a b =
     (if is_zero b then Inl ZeroDivisionError
      else Inr
        (if is_nan a \<or> is_nan b then NaN
         else if is_inf a then (if is_inf b then NaN else signed_inf (is_neg a \<noteq> is_neg b))
         else if is_inf b then signed_zero (is_neg a \<noteq> is_neg b)
         else
           let q = fin_val a / fin_val b
           in if q = 0 then signed_zero (is_neg a \<noteq> is_neg b) else round_to_double q))"

text \<open>
  \<^verbatim>\<open>x ** 2\<close> on a float (\<^verbatim>\<open>float_pow\<close>). CPython itself decides the result for a
  NaN, an infinity and a zero; for any other operand it calls the C library's
  \<^verbatim>\<open>pow(x, 2.0)\<close>. What that returns for an operand of value \<open>q\<close> is the parameter
  \<open>sq\<close> (the library is not part of the repository, and need not round the square
  correctly); an infinity it reports as a range error, which raises \<^verbatim>\<open>OverflowError\<close>.
\<close>

definition float_pow2 :: "(rat \<Rightarrow> pyfloat) \<Rightarrow> pyfloat \<Rightarrow> error + pyfloat" where
  "float_pow2 sq a =
     (if is_nan a then Inr NaN
      else if is_inf a then Inr PosInf
      else if is_zero a then Inr (Fin 0)
      else (case sq (fin_val a) of
              PosInf \<Rightarrow> Inl OverflowError
            | r \<Rightarrow> Inr r))"

text \<open>A C library whose \<^verbatim>\<open>pow\<close> rounds a square correctly.\<close>

definition rounded_square :: "rat \<Rightarrow> pyfloat" where
  "rounded_square q = round_to_double (q * q)"

text \<open>The integer square root, two bits at a time.\<close>

function isqrt :: "int \<Rightarrow> int" where
  "isqrt n =
     (if n < 4 then (if n \<le> 0 then 0 else 1)
      else
        let r = 2 * isqrt (n div 4)
        in if (r + 1) * (r + 1) \<le> n then r + 1 else r)"
  by pat_completeness auto
termination
  by (relation "measure nat") auto

declare isqrt.simps [simp del]

text \<open>
  The binary64 value nearest to the square root of a positive rational: the root of a
  positive double is never subnormal and never overflows.
\<close>

definition sqrt_to_double :: "rat \<Rightarrow> pyfloat" where
  "sqrt_to_double q =
     (let h = ilog2 q div 2;
          u = pow2 (h - 52);
          w = q / (u * u);
          s = isqrt \<lfloor>w\<rfloor>;
          t = of_int (s * s + s) + 1 / 4;
          m = (if w < t then s else if t < w then s + 1 else if even s then s else s + 1)
      in Fin (of_int m * u))"

text \<open>\<^verbatim>\<open>math.sqrt\<close> on a float: a negative operand is a domain error.\<close>

definition float_sqrt :: "pyfloat \<Rightarrow> error + pyfloat" where
  "float_sqrt a =
     (case a of
        NaN \<Rightarrow> Inr NaN
      | PosInf \<Rightarrow> Inr PosInf
      | NegInf \<Rightarrow> Inl ValueError
      | NegZero \<Rightarrow> Inr NegZero
      | Fin q \<Rightarrow>
          if q < 0 then Inl ValueError
          else if q = 0 then Inr (Fin 0)
          else Inr (sqrt_to_double q))"

text \<open>
  \<^verbatim>\<open>float(n)\<close> for an \<^verbatim>\<open>int\<close>: the nearest double, and \<^verbatim>\<open>OverflowError\<close> when that
  is out of range (\<^verbatim>\<open>int too large to convert to float\<close>).
\<close>

definition float_of_int :: "int \<Rightarrow> error + pyfloat" where
  "float_of_int n =
     (case round_to_double (of_int n) of
        PosInf \<Rightarrow> Inl OverflowError
      | NegInf \<Rightarrow> Inl OverflowError
      | r \<Rightarrow> Inr r)"

text \<open>
  \<^verbatim>\<open>round(x, 0)\<close> on a float: the nearest integral float (ties to even); NaN and the
  infinities round to themselves, and the sign of a zero result is the operand's.
\<close>

definition float_round0 :: "pyfloat \<Rightarrow> pyfloat" where
  "float_round0 a =
     (case a of
        Fin q \<Rightarrow>
          (let n = round_half_even q
           in if n = 0 \<and> q < 0 then NegZero else Fin (of_int n))
      | _ \<Rightarrow> a)"

text \<open>
  \<^verbatim>\<open>int(x)\<close> on a float truncates towards zero; it raises \<^verbatim>\<open>OverflowError\<close> on an
  infinity and \<^verbatim>\<open>ValueError\<close> on a NaN.
\<close>

definition int_of_float :: "pyfloat \<Rightarrow> error + int" where
  "int_of_float a =
     (case a of
        Fin q \<Rightarrow> Inr (if 0 \<le> q then \<lfloor>q\<rfloor> else \<lceil>q\<rceil>)
      | NegZero \<Rightarrow> Inr 0
      | PosInf \<Rightarrow> Inl OverflowError
      | NegInf \<Rightarrow> Inl OverflowError
      | NaN \<Rightarrow> Inl ValueError)"

text \<open>\<^verbatim>\<open>a == b\<close> on floats: a NaN equals nothing, the two zeros are equal.\<close>

definition float_eq :: "pyfloat \<Rightarrow> pyfloat \<Rightarrow> bool" where
  "float_eq a b =
     (if is_nan a \<or> is_nan b then False
      else if is_zero a \<or> is_zero b then is_zero a \<and> is_zero b
      else a = b)"

subsection \<open>Numbers and the other constructor arguments\<close>

text \<open>
  \<^verbatim>\<open>bool\<close> is a subclass of \<^verbatim>\<open>int\<close>: \<^verbatim>\<open>isinstance(True, int)\<close> holds, and in
  arithmetic \<^verbatim>\<open>True\<close> and \<^verbatim>\<open>False\<close> count as 1 and 0.
\<close>

datatype pyint = PInt int | PBool bool

fun int_val :: "pyint \<Rightarrow> int" where
  "int_val (PInt n) = n"
| "int_val (PBool b) = (if b then 1 else 0)"

datatype pynum = NInt pyint | NFloat pyfloat

text \<open>
  What a constructor can be handed: a number, a string, \<^verbatim>\<open>None\<close> (also the default of
  an argument that is left out), or a list or tuple.
\<close>

datatype pyval = Num pynum | Str string | NoneVal | Seq "pyval list"

text \<open>\<^verbatim>\<open>float(c)\<close> for a number.\<close>

fun py_float :: "pynum \<Rightarrow> error + pyfloat" where
  "py_float (NInt i) = float_of_int (int_val i)"
| "py_float (NFloat f) = Inr f"

text \<open>\<^verbatim>\<open>a * b\<close>: exact on two ints, otherwise the int operand is converted first.\<close>

fun num_mul :: "pynum \<Rightarrow> pynum \<Rightarrow> error + pynum" where
  "num_mul (NInt i) (NInt j) = Inr (NInt (PInt (int_val i * int_val j)))"
| "num_mul a b =
     bind_err (py_float a) (\<lambda>x. bind_err (py_float b) (\<lambda>y. Inr (NFloat (float_mul x y))))"

text \<open>\<^verbatim>\<open>a + b\<close>.\<close>

fun num_add :: "pynum \<Rightarrow> pynum \<Rightarrow> error + pynum" where
  "num_add (NInt i) (NInt j) = Inr (NInt (PInt (int_val i + int_val j)))"
| "num_add a b =
     bind_err (py_float a) (\<lambda>x. bind_err (py_float b) (\<lambda>y. Inr (NFloat (float_add x y))))"

text \<open>\<^verbatim>\<open>c ** 2\<close>.\<close>

fun num_pow2 :: "(rat \<Rightarrow> pyfloat) \<Rightarrow> pynum \<Rightarrow> error + pynum" where
  "num_pow2 sq (NInt i) = Inr (NInt (PInt (int_val i * int_val i)))"
| "num_pow2 sq (NFloat f) = bind_err (float_pow2 sq f) (\<lambda>r. Inr (NFloat r))"

text \<open>
  \<^verbatim>\<open>a / b\<close> with a float divisor, the only true division the module performs: the
  dividend is converted to a float, then the floats are divided.
\<close>

definition num_truediv :: "pynum \<Rightarrow> pyfloat \<Rightarrow> error + pyfloat" where
  "num_truediv a b = bind_err (py_float a) (\<lambda>x. float_truediv x b)"

text \<open>\<^verbatim>\<open>math.sqrt(v)\<close>.\<close>

definition math_sqrt :: "pynum \<Rightarrow> error + pyfloat" where
  "math_sqrt v = bind_err (py_float v) float_sqrt"

text \<open>\<^verbatim>\<open>int(round(c, 0))\<close>: \<^verbatim>\<open>round\<close> with \<^verbatim>\<open>ndigits\<close> given leaves an int as it is.\<close>

fun int_round0 :: "pynum \<Rightarrow> error + int" where
  "int_round0 (NInt i) = Inr (int_val i)"
| "int_round0 (NFloat f) = int_of_float (float_round0 f)"

text \<open>\<^verbatim>\<open>a == b\<close> on numbers; an int and a float are compared by exact value.\<close>

fun num_eq :: "pynum \<Rightarrow> pynum \<Rightarrow> bool" where
  "num_eq (NInt i) (NInt j) = (int_val i = int_val j)"
| "num_eq (NFloat a) (NFloat b) = float_eq a b"
| "num_eq (NInt i) (NFloat b) = float_eq (Fin (of_int (int_val i))) b"
| "num_eq (NFloat a) (NInt j) = float_eq a (Fin (of_int (int_val j)))"

text \<open>\<^verbatim>\<open>key == k\<close> for an int literal \<open>k\<close>: only a number can be equal to it.\<close>

fun val_eq_int :: "pyval \<Rightarrow> int \<Rightarrow> bool" where
  "val_eq_int (Num a) k = num_eq a (NInt (PInt k))"
| "val_eq_int _ k = False"

subsection \<open>Text\<close>

definition digit_char :: "int \<Rightarrow> char" where
  "digit_char d = ''0123456789'' ! nat d"

function dec_digits :: "int \<Rightarrow> string" where
  "dec_digits n =
     (if n < 10 then [digit_char n] else dec_digits (n div 10) @ [digit_char (n mod 10)])"
  by pat_completeness auto
termination
  by (relation "measure nat") auto

declare dec_digits.simps [simp del]

text \<open>The decimal numeral of an int.\<close>

definition dec_string :: "int \<Rightarrow> string" where
  "dec_string n = (if n < 0 then ''-'' @ dec_digits (- n) else dec_digits n)"

text \<open>
  \<^verbatim>\<open>'{}'.format(c)\<close> for an int, and for a bool. CPython (3.11 and later) refuses
  to convert an int of more than \<^verbatim>\<open>sys.int_max_str_digits\<close> decimal digits, 4300
  unless the interpreter is told otherwise, and raises \<^verbatim>\<open>ValueError\<close>.
\<close>

definition int_max_str_digits :: nat where
  "int_max_str_digits = 4300"

definition str_of_int :: "int \<Rightarrow> error + string" where
  "str_of_int n =
     (if int_max_str_digits < length (dec_digits \<bar>n\<bar>) then Inl ValueError
      else Inr (dec_string n))"

fun str_of_pyint :: "pyint \<Rightarrow> error + string" where
  "str_of_pyint (PInt n) = str_of_int n"
| "str_of_pyint (PBool b) = Inr (if b then ''True'' else ''False'')"

text \<open>
  \<^verbatim>\<open>'{:.2f}'.format(c)\<close> for a float: the exact value, correctly rounded to two
  decimals, a tie going to the even neighbour; the sign is kept on a zero result.
\<close>

definition format_2f :: "pyfloat \<Rightarrow> string" where
  "format_2f a =
     (case a of
        Fin q \<Rightarrow>
          (let n = round_half_even (\<bar>q\<bar> * 100)
           in (if q < 0 then ''-'' else []) @ dec_digits (n div 100) @ ''.'' @
              [digit_char (n mod 100 div 10), digit_char (n mod 10)])
      | NegZero \<Rightarrow> ''-0.00''
      | PosInf \<Rightarrow> ''inf''
      | NegInf \<Rightarrow> ''-inf''
      | NaN \<Rightarrow> ''nan'')"

section \<open>Point2D\<close>

text \<open>
  An instance exists only as the result of \<^verbatim>\<open>__init__\<close>, whose last step
  \<^verbatim>\<open>_set_types\<close> leaves either both coordinates instances of \<^verbatim>\<open>int\<close> with
  \<^verbatim>\<open>_dtype = "int"\<close>, or both floats with \<^verbatim>\<open>_dtype = "float"\<close>; no method
  assigns an attribute afterwards. The datatype has exactly these states.
\<close>

datatype Point2D = Point2D_int pyint pyint | Point2D_float pyfloat pyfloat

fun Point2D_x :: "Point2D \<Rightarrow> pynum" where
  "Point2D_x (Point2D_int i j) = NInt i"
| "Point2D_x (Point2D_float a b) = NFloat a"

fun Point2D_y :: "Point2D \<Rightarrow> pynum" where
  "Point2D_y (Point2D_int i j) = NInt j"
| "Point2D_y (Point2D_float a b) = NFloat b"

fun Point2D_dtype :: "Point2D \<Rightarrow> string" where
  "Point2D_dtype (Point2D_int i j) = ''int''"
| "Point2D_dtype (Point2D_float a b) = ''float''"

text \<open>
  \<^verbatim>\<open>_set_types\<close>: a coordinate that is not a number raises \<^verbatim>\<open>RuntimeError\<close>; two
  ints stay as they are; otherwise both are passed through \<^verbatim>\<open>float\<close>.
\<close>

fun Point2D_set_types :: "pyval \<Rightarrow> pyval \<Rightarrow> error + Point2D" where
  "Point2D_set_types (Num (NInt i)) (Num (NInt j)) = Inr (Point2D_int i j)"
| "Point2D_set_types (Num a) (Num b) =
     bind_err (py_float a) (\<lambda>x. bind_err (py_float b) (\<lambda>y. Inr (Point2D_float x y)))"
| "Point2D_set_types _ _ = Inl RuntimeError"

text \<open>
  \<^verbatim>\<open>self.x, self.y = a1\<close>: a number or \<^verbatim>\<open>None\<close> cannot be unpacked
  (\<^verbatim>\<open>TypeError\<close>), a sequence of another length raises \<^verbatim>\<open>ValueError\<close>, and a
  string unpacks into its characters.
\<close>

fun unpack2 :: "pyval \<Rightarrow> error + pyval \<times> pyval" where
  "unpack2 (Seq [a, b]) = Inr (a, b)"
| "unpack2 (Seq xs) = Inl ValueError"
| "unpack2 (Str [c, d]) = Inr (Str [c], Str [d])"
| "unpack2 (Str s) = Inl ValueError"
| "unpack2 (Num a) = Inl TypeError"
| "unpack2 NoneVal = Inl TypeError"

text \<open>\<^verbatim>\<open>Point2D(a1, a2=None)\<close>.\<close>

definition Point2D_init :: "pyval \<Rightarrow> pyval \<Rightarrow> error + Point2D" where
  "Point2D_init a1 a2 =
     (if a2 = NoneVal then bind_err (unpack2 a1) (\<lambda>(x, y). Point2D_set_types x y)
      else Point2D_set_types a1 a2)"

definition Point2D_magnitude :: "(rat \<Rightarrow> pyfloat) \<Rightarrow> Point2D \<Rightarrow> error + pyfloat" where
  "Point2D_magnitude sq p =
     bind_err (num_pow2 sq (Point2D_x p)) (\<lambda>xx.
     bind_err (num_pow2 sq (Point2D_y p)) (\<lambda>yy.
     bind_err (num_add xx yy) math_sqrt))"

definition Point2D_unit_vector :: "(rat \<Rightarrow> pyfloat) \<Rightarrow> Point2D \<Rightarrow> error + Point2D" where
  "Point2D_unit_vector sq p =
     bind_err (Point2D_magnitude sq p) (\<lambda>m1.
     bind_err (num_truediv (Point2D_x p) m1) (\<lambda>a.
     bind_err (Point2D_magnitude sq p) (\<lambda>m2.
     bind_err (num_truediv (Point2D_y p) m2) (\<lambda>b.
     Point2D_init (Num (NFloat a)) (Num (NFloat b))))))"

definition Point2D_repr :: "Point2D \<Rightarrow> error + string" where
  "Point2D_repr p =
     (case p of
        Point2D_float a b \<Rightarrow>
          Inr (''<Point2D(x='' @ format_2f a @ '', y='' @ format_2f b @
               '', dtype='' @ Point2D_dtype p @ '')>'')
      | Point2D_int i j \<Rightarrow>
          bind_err (str_of_pyint i) (\<lambda>sx.
          bind_err (str_of_pyint j) (\<lambda>sy.
          Inr (''<Point2D(x='' @ sx @ '', y='' @ sy @
               '', dtype='' @ Point2D_dtype p @ '')>''))))"

definition Point2D_eq :: "Point2D \<Rightarrow> Point2D \<Rightarrow> bool" where
  "Point2D_eq p other =
     (if Point2D_dtype p \<noteq> Point2D_dtype other then False
      else num_eq (Point2D_x p) (Point2D_x other) \<and> num_eq (Point2D_y p) (Point2D_y other))"

definition Point2D_mul :: "Point2D \<Rightarrow> pynum \<Rightarrow> error + Point2D" where
  "Point2D_mul p other =
     bind_err (num_mul (Point2D_x p) other) (\<lambda>a.
     bind_err (num_mul (Point2D_y p) other) (\<lambda>b.
     Point2D_init (Num a) (Num b)))"

text \<open>\<^verbatim>\<open>__div__\<close>: \<^verbatim>\<open>self * (1/float(other))\<close>; \<^verbatim>\<open>__truediv__\<close> calls it.\<close>

definition Point2D_div :: "Point2D \<Rightarrow> pynum \<Rightarrow> error + Point2D" where
  "Point2D_div p other =
     bind_err (py_float other) (\<lambda>f.
     bind_err (num_truediv (NInt (PInt 1)) f) (\<lambda>r.
     Point2D_mul p (NFloat r)))"

definition Point2D_truediv :: "Point2D \<Rightarrow> pynum \<Rightarrow> error + Point2D" where
  "Point2D_truediv p other = Point2D_div p other"

definition Point2D_getitem :: "Point2D \<Rightarrow> pyval \<Rightarrow> error + pynum" where
  "Point2D_getitem p key =
     (if val_eq_int key 0 then Inr (Point2D_x p)
      else if val_eq_int key 1 then Inr (Point2D_y p)
      else Inl IndexError)"

definition Point2D_astype :: "Point2D \<Rightarrow> string \<Rightarrow> error + Point2D" where
  "Point2D_astype p dtype =
     (if dtype = ''int'' then
        bind_err (int_round0 (Point2D_x p)) (\<lambda>a.
        bind_err (int_round0 (Point2D_y p)) (\<lambda>b.
        Point2D_init (Num (NInt (PInt a))) (Num (NInt (PInt b)))))
      else if dtype = ''float'' then
        bind_err (py_float (Point2D_x p)) (\<lambda>a.
        bind_err (py_float (Point2D_y p)) (\<lambda>b.
        Point2D_init (Num (NFloat a)) (Num (NFloat b))))
      else Inl RuntimeError)"

section \<open>Point3D\<close>

datatype Point3D = Point3D_int pyint pyint pyint | Point3D_float pyfloat pyfloat pyfloat

fun Point3D_x :: "Point3D \<Rightarrow> pynum" where
  "Point3D_x (Point3D_int i j k) = NInt i"
| "Point3D_x (Point3D_float a b c) = NFloat a"

fun Point3D_y :: "Point3D \<Rightarrow> pynum" where
  "Point3D_y (Point3D_int i j k) = NInt j"
| "Point3D_y (Point3D_float a b c) = NFloat b"

fun Point3D_z :: "Point3D \<Rightarrow> pynum" where
  "Point3D_z (Point3D_int i j k) = NInt k"
| "Point3D_z (Point3D_float a b c) = NFloat c"

fun Point3D_dtype :: "Point3D \<Rightarrow> string" where
  "Point3D_dtype (Point3D_int i j k) = ''int''"
| "Point3D_dtype (Point3D_float a b c) = ''float''"

fun Point3D_set_types :: "pyval \<Rightarrow> pyval \<Rightarrow> pyval \<Rightarrow> error + Point3D" where
  "Point3D_set_types (Num (NInt i)) (Num (NInt j)) (Num (NInt k)) = Inr (Point3D_int i j k)"
| "Point3D_set_types (Num a) (Num b) (Num c) =
     bind_err (py_float a) (\<lambda>x.
     bind_err (py_float b) (\<lambda>y.
     bind_err (py_float c) (\<lambda>z. Inr (Point3D_float x y z))))"
| "Point3D_set_types _ _ _ = Inl RuntimeError"

text \<open>\<^verbatim>\<open>self.x, self.y, self.z = a1\<close>.\<close>

fun unpack3 :: "pyval \<Rightarrow> error + pyval \<times> pyval \<times> pyval" where
  "unpack3 (Seq [a, b, c]) = Inr (a, b, c)"
| "unpack3 (Seq xs) = Inl ValueError"
| "unpack3 (Str [c, d, e]) = Inr (Str [c], Str [d], Str [e])"
| "unpack3 (Str s) = Inl ValueError"
| "unpack3 (Num a) = Inl TypeError"
| "unpack3 NoneVal = Inl TypeError"

text \<open>
  \<^verbatim>\<open>Point3D(a1, a2=None, a3=None)\<close>: the three arguments are the coordinates only when
  neither \<^verbatim>\<open>a2\<close> nor \<^verbatim>\<open>a3\<close> is \<^verbatim>\<open>None\<close>; otherwise \<^verbatim>\<open>a1\<close> is unpacked.
\<close>

definition Point3D_init :: "pyval \<Rightarrow> pyval \<Rightarrow> pyval \<Rightarrow> error + Point3D" where
  "Point3D_init a1 a2 a3 =
     (if a2 \<noteq> NoneVal \<and> a3 \<noteq> NoneVal then Point3D_set_types a1 a2 a3
      else bind_err (unpack3 a1) (\<lambda>(x, y, z). Point3D_set_types x y z))"

text \<open>The format string of the float branch starts with \<^verbatim>\<open><Point2D(\<close> in the source.\<close>

definition Point3D_repr :: "Point3D \<Rightarrow> error + string" where
  "Point3D_repr p =
     (case p of
        Point3D_float a b c \<Rightarrow>
          Inr (''<Point2D(x='' @ format_2f a @ '', y='' @ format_2f b @ '', z='' @ format_2f c @
               '', dtype='' @ Point3D_dtype p @ '')>'')
      | Point3D_int i j k \<Rightarrow>
          bind_err (str_of_pyint i) (\<lambda>sx.
          bind_err (str_of_pyint j) (\<lambda>sy.
          bind_err (str_of_pyint k) (\<lambda>sz.
          Inr (''<Point3D(x='' @ sx @ '', y='' @ sy @ '', z='' @ sz @
               '', dtype='' @ Point3D_dtype p @ '')>'')))))"

definition Point3D_eq :: "Point3D \<Rightarrow> Point3D \<Rightarrow> bool" where
  "Point3D_eq p other =
     (if Point3D_dtype p \<noteq> Point3D_dtype other then False
      else num_eq (Point3D_x p) (Point3D_x other) \<and> num_eq (Point3D_y p) (Point3D_y other)
           \<and> num_eq (Point3D_z p) (Point3D_z other))"

definition Point3D_mul :: "Point3D \<Rightarrow> pynum \<Rightarrow> error + Point3D" where
  "Point3D_mul p other =
     bind_err (num_mul (Point3D_x p) other) (\<lambda>a.
     bind_err (num_mul (Point3D_y p) other) (\<lambda>b.
     bind_err (num_mul (Point3D_z p) other) (\<lambda>c.
     Point3D_init (Num a) (Num b) (Num c))))"

definition Point3D_div :: "Point3D \<Rightarrow> pynum \<Rightarrow> error + Point3D" where
  "Point3D_div p other =
     bind_err (py_float other) (\<lambda>f.
     bind_err (num_truediv (NInt (PInt 1)) f) (\<lambda>r.
     Point3D_mul p (NFloat r)))"

definition Point3D_truediv :: "Point3D \<Rightarrow> pynum \<Rightarrow> error + Point3D" where
  "Point3D_truediv p other = Point3D_div p other"

definition Point3D_getitem :: "Point3D \<Rightarrow> pyval \<Rightarrow> error + pynum" where
  "Point3D_getitem p key =
     (if val_eq_int key 0 then Inr (Point3D_x p)
      else if val_eq_int key 1 then Inr (Point3D_y p)
      else if val_eq_int key 2 then Inr (Point3D_z p)
      else Inl IndexError)"

definition Point3D_magnitude :: "(rat \<Rightarrow> pyfloat) \<Rightarrow> Point3D \<Rightarrow> error + pyfloat" where
  "Point3D_magnitude sq p =
     bind_err (num_pow2 sq (Point3D_x p)) (\<lambda>xx.
     bind_err (num_pow2 sq (Point3D_y p)) (\<lambda>yy.
     bind_err (num_add xx yy) (\<lambda>s.
     bind_err (num_pow2 sq (Point3D_z p)) (\<lambda>zz.
     bind_err (num_add s zz) math_sqrt))))"

definition Point3D_unit_vector :: "(rat \<Rightarrow> pyfloat) \<Rightarrow> Point3D \<Rightarrow> error + Point3D" where
  "Point3D_unit_vector sq p =
     bind_err (Point3D_magnitude sq p) (\<lambda>m1.
     bind_err (num_truediv (Point3D_x p) m1) (\<lambda>a.
     bind_err (Point3D_magnitude sq p) (\<lambda>m2.
     bind_err (num_truediv (Point3D_y p) m2) (\<lambda>b.
     bind_err (Point3D_magnitude sq p) (\<lambda>m3.
     bind_err (num_truediv (Point3D_z p) m3) (\<lambda>c.
     Point3D_init (Num (NFloat a)) (Num (NFloat b)) (Num (NFloat c))))))))"

definition Point3D_astype :: "Point3D \<Rightarrow> string \<Rightarrow> error + Point3D" where
  "Point3D_astype p dtype =
     (if dtype = ''int'' then
        bind_err (int_round0 (Point3D_x p)) (\<lambda>a.
        bind_err (int_round0 (Point3D_y p)) (\<lambda>b.
        bind_err (int_round0 (Point3D_z p)) (\<lambda>c.
        Point3D_init (Num (NInt (PInt a))) (Num (NInt (PInt b))) (Num (NInt (PInt c))))))
      else if dtype = ''float'' then
        bind_err (py_float (Point3D_x p)) (\<lambda>a.
        bind_err (py_float (Point3D_y p)) (\<lambda>b.
        bind_err (py_float (Point3D_z p)) (\<lambda>c.
        Point3D_init (Num (NFloat a)) (Num (NFloat b)) (Num (NFloat c)))))
      else Inl RuntimeError)"

section \<open>Predicates used to state the properties\<close>

text \<open>A coordinate that is zero: the int 0, \<^verbatim>\<open>False\<close>, or a float zero of either sign.\<close>

fun num_is_zero :: "pynum \<Rightarrow> bool" where
  "num_is_zero (NInt i) = (int_val i = 0)"
| "num_is_zero (NFloat f) = is_zero f"

text \<open>A constructor argument that passes the \<^verbatim>\<open>isinstance\<close> test of \<^verbatim>\<open>_set_types\<close>.\<close>

fun is_num :: "pyval \<Rightarrow> bool" where
  "is_num (Num a) = True"
| "is_num _ = False"

text \<open>Instances of \<^verbatim>\<open>int\<close> among the numbers.\<close>

fun is_int_num :: "pynum \<Rightarrow> bool" where
  "is_int_num (NInt i) = True"
| "is_int_num (NFloat f) = False"

text \<open>
  An int of magnitude at most \<open>2 ^ 53\<close> is a double; \<open>as_float_exact\<close> is the float
  that denotes exactly the value of a number.
\<close>

fun fits_double :: "pynum \<Rightarrow> bool" where
  "fits_double (NInt i) = (\<bar>int_val i\<bar> \<le> 2 ^ 53)"
| "fits_double (NFloat f) = True"

fun as_float_exact :: "pynum \<Rightarrow> pyfloat" where
  "as_float_exact (NInt i) = Fin (of_int (int_val i))"
| "as_float_exact (NFloat f) = f"

text \<open>A coordinate with a finite value, and that value rounded half to even.\<close>

fun num_is_finite :: "pynum \<Rightarrow> bool" where
  "num_is_finite (NInt i) = True"
| "num_is_finite (NFloat f) = (\<not> is_inf f \<and> \<not> is_nan f)"

fun num_val :: "pynum \<Rightarrow> rat" where
  "num_val (NInt i) = of_int (int_val i)"
| "num_val (NFloat f) = fin_val f"

text \<open>
  The specification's reading of the float format, for comparison with \<open>format_2f\<close>:
  two decimals, a tie rounded away from zero.
\<close>

definition spec_round_half_away :: "rat \<Rightarrow> int" where
  "spec_round_half_away q = (if 0 \<le> q then \<lfloor>q + 1 / 2\<rfloor> else - \<lfloor>- q + 1 / 2\<rfloor>)"

definition spec_format_2f :: "rat \<Rightarrow> string" where
  "spec_format_2f q =
     (let n = spec_round_half_away (\<bar>q\<bar> * 100)
      in (if q < 0 then ''-'' else []) @ dec_digits (n div 100) @ ''.'' @
         [digit_char (n mod 100 div 10), digit_char (n mod 10)])"

text \<open>
  An int that \<^verbatim>\<open>'{}'.format\<close> converts (a bool always is), and the text it is
  converted to.
\<close>

fun printable :: "pyint \<Rightarrow> bool" where
  "printable (PInt n) = (\<bar>n\<bar> < 10 ^ int_max_str_digits)"
| "printable (PBool b) = True"

fun pyint_text :: "pyint \<Rightarrow> string" where
  "pyint_text (PInt n) = dec_string n"
| "pyint_text (PBool b) = (if b then ''True'' else ''False'')"

text \<open>Reading a decimal numeral back: the value of a string of digits with an optional sign.\<close>

definition digit_val :: "char \<Rightarrow> int" where
  "digit_val c = int (of_char c) - 48"

definition digits_val :: "string \<Rightarrow> int" where
  "digits_val s = foldl (\<lambda>a c. 10 * a + digit_val c) 0 s"

fun dec_val :: "string \<Rightarrow> int" where
  "dec_val [] = 0"
| "dec_val (c # s) = (if c = CHR ''-'' then - digits_val s else digits_val (c # s))"

text \<open>
  A number of moderate size: an int of magnitude at most \<open>2 ^ 53\<close>, or a finite float
  that is zero or of magnitude between \<open>2 ^ -500\<close> and \<open>2 ^ 500\<close>. Between such
  numbers a quotient neither overflows nor underflows.
\<close>

fun moderate :: "pynum \<Rightarrow> bool" where
  "moderate (NInt i) = (\<bar>int_val i\<bar> \<le> 2 ^ 53)"
| "moderate (NFloat f) =
     (\<not> is_inf f \<and> \<not> is_nan f
      \<and> (fin_val f = 0 \<or> (pow2 (- 500) \<le> \<bar>fin_val f\<bar> \<and> \<bar>fin_val f\<bar> \<le> pow2 500)))"

text \<open>
  A float that is a value up to rounding: finite, and off by at most the value's
  \<open>2 ^ -51\<close>-th part (two roundings to 53 significant bits stay within that).
\<close>

definition within_rounding :: "pyfloat \<Rightarrow> rat \<Rightarrow> bool" where
  "within_rounding c t = (\<not> is_inf c \<and> \<not> is_nan c \<and> \<bar>fin_val c - t\<bar> \<le> \<bar>t\<bar> / 2 ^ 51)"

section \<open>Facts about the arithmetic\<close>


lemma bind_err_Inl [simp]: "bind_err (Inl e) f = Inl e"
  by (simp add: bind_err_def)

lemma bind_err_Inr [simp]: "bind_err (Inr v) f = f v"
  by (simp add: bind_err_def)

lemma round_half_even_of_int [simp]: "round_half_even (of_int m) = m"
  by (simp add: round_half_even_def)

lemma round_half_even_numeral [simp]: "round_half_even (numeral k) = numeral k"
  using round_half_even_of_int [of "numeral k"] by simp

lemma bit_length_pos: "0 < n \<Longrightarrow> 1 \<le> bit_length n"
proof (induction n rule: bit_length.induct)
  case (1 n)
  show ?case
  proof (cases "0 < n div 2")
    case True
    with 1 have "1 \<le> bit_length (n div 2)" by simp
    with 1 show ?thesis by (subst bit_length.simps) simp
  next
    case False
    then have "bit_length (n div 2) = 0" by (subst bit_length.simps) simp
    with 1 show ?thesis by (subst bit_length.simps) simp
  qed
qed

lemma bit_length_lower: "0 < n \<Longrightarrow> 2 ^ nat (bit_length n - 1) \<le> n"
proof (induction n rule: bit_length.induct)
  case (1 n)
  show ?case
  proof (cases "0 < n div 2")
    case True
    with 1 have ih: "2 ^ nat (bit_length (n div 2) - 1) \<le> n div 2" by simp
    from True have bp: "1 \<le> bit_length (n div 2)" by (rule bit_length_pos)
    have eq: "bit_length n = 1 + bit_length (n div 2)"
      using 1 by (subst bit_length.simps) simp
    have "nat (bit_length n - 1) = Suc (nat (bit_length (n div 2) - 1))"
      using eq bp by simp
    then have "(2::int) ^ nat (bit_length n - 1) = 2 * 2 ^ nat (bit_length (n div 2) - 1)"
      by simp
    also have "\<dots> \<le> 2 * (n div 2)" using ih by simp
    also have "\<dots> \<le> n" by simp
    finally show ?thesis .
  next
    case False
    then have "bit_length (n div 2) = 0" by (subst bit_length.simps) simp
    with 1 have "bit_length n = 1" by (subst bit_length.simps) simp
    with 1 show ?thesis by simp
  qed
qed

lemma bit_length_one: "bit_length 1 = 1"
  by code_simp

lemma ilog2_of_int: "0 < n \<Longrightarrow> ilog2 (of_int n) = bit_length n - 1"
proof -
  assume n: "0 < n"
  have d: "0 \<le> bit_length n - 1" using bit_length_pos [OF n] by simp
  have "rat_of_int (2 ^ nat (bit_length n - 1)) \<le> of_int n"
    using bit_length_lower [OF n] by (simp only: of_int_le_iff)
  then have "pow2 (bit_length n - 1) \<le> of_int n"
    using d by (simp add: pow2_def)
  then show ?thesis
    by (simp add: ilog2_def bit_length_one)
qed


lemma pow2_nonneg: "0 \<le> e \<Longrightarrow> pow2 e = of_int (2 ^ nat e)"
  by (simp add: pow2_def)

lemma pow2_neg: "e < 0 \<Longrightarrow> pow2 e = 1 / of_int (2 ^ nat (- e))"
  by (simp add: pow2_def)

lemma round_scaled_int:
  assumes n: "0 < n" and hi: "n \<le> 2 ^ 53" and e: "e = bit_length n - 1"
  shows "of_int (round_half_even (of_int n / pow2 (e - 52))) * pow2 (e - 52) = (of_int n :: rat)"
proof -
  have e0: "0 \<le> e" using bit_length_pos [OF n] e by simp
  have lower: "2 ^ nat e \<le> n" using bit_length_lower [OF n] e by simp
  have "(2::int) ^ nat e \<le> 2 ^ 53" using lower hi by simp
  then have "nat e \<le> 53" by (simp only: power_increasing_iff) 
  then have e53: "e \<le> 53" using e0 by simp
  show ?thesis
  proof (cases "e = 53")
    case True
    then have "2 ^ 53 \<le> n" using lower by simp
    with hi have "n = 2 ^ 53" by simp
    with True show ?thesis by (simp add: pow2_def)
  next
    case False
    with e53 have le: "e - 52 \<le> 0" by simp
    show ?thesis
    proof (cases "e = 52")
      case True
      then show ?thesis by (simp add: pow2_def)
    next
      case False
      with le have lt: "e - 52 < 0" by simp
      define K :: int where "K = 2 ^ nat (- (e - 52))"
      have Kpos: "0 < K" by (simp add: K_def)
      have u: "pow2 (e - 52) = 1 / of_int K" using lt by (simp add: pow2_neg K_def)
      have "rat_of_int n / (1 / of_int K) = of_int (n * K)" by simp
      then have "round_half_even (of_int n / (1 / rat_of_int K)) = n * K"
        by (simp only: round_half_even_of_int)
      then show ?thesis using Kpos by (simp add: u)
    qed
  qed
qed

lemma round_to_double_pos_int:
  assumes n: "0 < n" and hi: "n \<le> 2 ^ 53"
  shows "round_to_double (of_int n) = Fin (of_int n)"
proof -
  define e where "e = bit_length n - 1"
  have e0: "0 \<le> e" using bit_length_pos [OF n] e_def by simp
  have il: "ilog2 (of_int n) = e" using ilog2_of_int [OF n] e_def by simp
  have mx: "max e (- 1022) = e" using e0 by simp
  have core: "of_int (round_half_even (of_int n / pow2 (e - 52))) * pow2 (e - 52) = (of_int n :: rat)"
    using round_scaled_int [OF n hi e_def] .
  have "n < 2 ^ 1024" using hi by (rule le_less_trans) simp
  then have "rat_of_int n < of_int (2 ^ 1024)" by (simp only: of_int_less_iff)
  then have small: "\<not> pow2 1024 \<le> of_int n" by (simp add: pow2_def)
  have abs: "\<bar>rat_of_int n\<bar> = of_int n" using n by simp
  show ?thesis
    using n small by (simp add: round_to_double_def abs il mx core Let_def)
qed

lemma round_to_double_neg_int:
  assumes n: "0 < n" and hi: "n \<le> 2 ^ 53"
  shows "round_to_double (- of_int n) = Fin (- of_int n)"
proof -
  define e where "e = bit_length n - 1"
  have e0: "0 \<le> e" using bit_length_pos [OF n] e_def by simp
  have il: "ilog2 (of_int n) = e" using ilog2_of_int [OF n] e_def by simp
  have mx: "max e (- 1022) = e" using e0 by simp
  have core: "of_int (round_half_even (of_int n / pow2 (e - 52))) * pow2 (e - 52) = (of_int n :: rat)"
    using round_scaled_int [OF n hi e_def] .
  have "n < 2 ^ 1024" using hi by (rule le_less_trans) simp
  then have "rat_of_int n < of_int (2 ^ 1024)" by (simp only: of_int_less_iff)
  then have small: "\<not> pow2 1024 \<le> of_int n" by (simp add: pow2_def)
  have abs: "\<bar>- rat_of_int n\<bar> = of_int n" using n by simp
  show ?thesis
    using n small by (simp add: round_to_double_def abs il mx core Let_def)
qed

lemma float_of_int_exact:
  assumes "\<bar>n\<bar> \<le> 2 ^ 53"
  shows "float_of_int n = Inr (Fin (of_int n))"
proof -
  consider "n = 0" | "0 < n" | "n < 0" by linarith
  then show ?thesis
  proof cases
    case 1
    then show ?thesis by (simp add: float_of_int_def round_to_double_def)
  next
    case 2
    with assms have "n \<le> 2 ^ 53" by simp
    from round_to_double_pos_int [OF 2 this] show ?thesis
      by (simp add: float_of_int_def)
  next
    case 3
    then have p: "0 < - n" by simp
    from assms 3 have "- n \<le> 2 ^ 53" by simp
    from round_to_double_neg_int [OF p this] show ?thesis
      by (simp add: float_of_int_def)
  qed
qed


lemma float_of_int_0: "float_of_int 0 = Inr (Fin 0)"
  by (simp add: float_of_int_def round_to_double_def)

lemma float_of_int_1: "float_of_int 1 = Inr (Fin 1)"
  using float_of_int_exact [of 1] by simp

lemma float_truediv_zero: "is_zero b \<Longrightarrow> float_truediv a b = Inl ZeroDivisionError"
  by (simp add: float_truediv_def)

lemma reciprocal_of_zero:
  "is_zero f \<Longrightarrow> num_truediv (NInt (PInt 1)) f = Inl ZeroDivisionError"
  by (simp add: num_truediv_def float_of_int_1 float_truediv_zero)

section \<open>Division by zero\<close>

text \<open>
  Claim C9. Dividing a point by the scalar zero -- the int \<^verbatim>\<open>0\<close>, the float
  \<^verbatim>\<open>0.0\<close> (or \<^verbatim>\<open>-0.0\<close>) -- raises \<^verbatim>\<open>ZeroDivisionError\<close> and returns no
  instance, for every \<^verbatim>\<open>Point2D\<close> and \<^verbatim>\<open>Point3D\<close> of either dtype, through
  \<^verbatim>\<open>__div__\<close> and through \<^verbatim>\<open>__truediv__\<close>: the reciprocal \<^verbatim>\<open>1/float(other)\<close>
  is taken before the point is looked at.
\<close>

theorem div_by_zero_raises:
  "Point2D_div p2 (NInt (PInt 0)) = Inl ZeroDivisionError
   \<and> Point2D_div p2 (NFloat (Fin 0)) = Inl ZeroDivisionError
   \<and> Point2D_div p2 (NFloat NegZero) = Inl ZeroDivisionError
   \<and> Point2D_truediv p2 (NInt (PInt 0)) = Inl ZeroDivisionError
   \<and> Point2D_truediv p2 (NFloat (Fin 0)) = Inl ZeroDivisionError
   \<and> Point3D_div p3 (NInt (PInt 0)) = Inl ZeroDivisionError
   \<and> Point3D_div p3 (NFloat (Fin 0)) = Inl ZeroDivisionError
   \<and> Point3D_div p3 (NFloat NegZero) = Inl ZeroDivisionError
   \<and> Point3D_truediv p3 (NInt (PInt 0)) = Inl ZeroDivisionError
   \<and> Point3D_truediv p3 (NFloat (Fin 0)) = Inl ZeroDivisionError"
  by (simp add: Point2D_div_def Point2D_truediv_def Point3D_div_def Point3D_truediv_def
      float_of_int_0 reciprocal_of_zero)

section \<open>Indexed access\<close>

text \<open>
  Claim C7. Indexed access with an integer index: 0 gives \<^verbatim>\<open>x\<close>, 1 gives \<^verbatim>\<open>y\<close>,
  and on a \<^verbatim>\<open>Point3D\<close> only, 2 gives \<^verbatim>\<open>z\<close>; every other integer, a negative one
  included, 2 on a \<^verbatim>\<open>Point2D\<close> and 3 on a \<^verbatim>\<open>Point3D\<close>, raises
  \<^verbatim>\<open>IndexError\<close>. In particular \<^verbatim>\<open>Point3D(2, 3, 4)[3]\<close> raises \<^verbatim>\<open>IndexError\<close>.
\<close>

theorem getitem_by_index:
  "Point2D_getitem p2 (Num (NInt (PInt k))) =
     (if k = 0 then Inr (Point2D_x p2) else if k = 1 then Inr (Point2D_y p2)
      else Inl IndexError)
   \<and> Point3D_getitem p3 (Num (NInt (PInt k))) =
     (if k = 0 then Inr (Point3D_x p3) else if k = 1 then Inr (Point3D_y p3)
      else if k = 2 then Inr (Point3D_z p3) else Inl IndexError)
   \<and> bind_err (Point3D_init (Num (NInt (PInt 2))) (Num (NInt (PInt 3))) (Num (NInt (PInt 4))))
        (\<lambda>p. Point3D_getitem p (Num (NInt (PInt 3)))) = Inl IndexError"
  by (simp add: Point2D_getitem_def Point3D_getitem_def Point3D_init_def)

theorem getitem_by_index_witness:
  "Point2D_getitem (Point2D_int (PInt 7) (PInt 8)) (Num (NInt (PInt (- 1)))) = Inl IndexError
   \<and> Point2D_getitem (Point2D_int (PInt 7) (PInt 8)) (Num (NInt (PInt 2))) = Inl IndexError
   \<and> Point3D_getitem (Point3D_int (PInt 7) (PInt 8) (PInt 9)) (Num (NInt (PInt 2))) = Inr (NInt (PInt 9))
   \<and> Point3D_getitem (Point3D_int (PInt 7) (PInt 8) (PInt 9)) (Num (NInt (PInt 3))) = Inl IndexError"
  using getitem_by_index [of "Point2D_int (PInt 7) (PInt 8)" "- 1" "Point3D_int (PInt 7) (PInt 8) (PInt 9)"]
    getitem_by_index [of "Point2D_int (PInt 7) (PInt 8)" 2 "Point3D_int (PInt 7) (PInt 8) (PInt 9)"]
    getitem_by_index [of "Point2D_int (PInt 7) (PInt 8)" 3 "Point3D_int (PInt 7) (PInt 8) (PInt 9)"]
  by simp

section \<open>A missing constructor argument\<close>

lemma py_float_not_TypeError: "py_float a \<noteq> Inl TypeError"
  by (cases a) (auto simp: float_of_int_def split: pyfloat.splits)

lemma Point3D_set_types_not_TypeError: "Point3D_set_types x y z \<noteq> Inl TypeError"
proof (cases "Point3D_set_types x y z = Inl RuntimeError")
  case True
  then show ?thesis by simp
next
  case False
  then obtain a b c where xyz: "x = Num a" "y = Num b" "z = Num c"
    by (cases x; cases y; cases z) auto
  show ?thesis
  proof (cases "\<exists>i j k. a = NInt i \<and> b = NInt j \<and> c = NInt k")
    case True
    then show ?thesis using xyz by auto
  next
    case False
    then have eq: "Point3D_set_types x y z =
      bind_err (py_float a) (\<lambda>x.
      bind_err (py_float b) (\<lambda>y.
      bind_err (py_float c) (\<lambda>z. Inr (Point3D_float x y z))))"
      using xyz by (cases a; cases b; cases c) auto
    show ?thesis
      using py_float_not_TypeError [of a] py_float_not_TypeError [of b]
        py_float_not_TypeError [of c]
      by (auto simp: eq bind_err_def split: sum.splits)
  qed
qed

text \<open>
  Claim C5. \<^verbatim>\<open>Point3D\<close> called with a number first and with the second or the third
  argument missing (left at \<^verbatim>\<open>None\<close>) raises \<^verbatim>\<open>TypeError\<close>, the error the
  specification calls InvalidArgument. The sequence form never raises that error: a
  sequence of the wrong length raises \<^verbatim>\<open>ValueError\<close>, so the two failures can be told
  apart.
\<close>

theorem Point3D_missing_argument:
  assumes "a2 = NoneVal \<or> a3 = NoneVal"
  shows "Point3D_init (Num a) a2 a3 = Inl TypeError
    \<and> Point3D_init (Seq xs) NoneVal NoneVal \<noteq> Inl TypeError
    \<and> Point3D_init (Seq [u, v]) NoneVal NoneVal = Inl ValueError"
proof -
  have 1: "Point3D_init (Num a) a2 a3 = Inl TypeError"
    using assms by (auto simp: Point3D_init_def)
  have 2: "Point3D_init (Seq xs) NoneVal NoneVal \<noteq> Inl TypeError"
  proof (cases "unpack3 (Seq xs)")
    case (Inl e)
    then have "e = ValueError" by (cases "(Seq xs)" rule: unpack3.cases) auto
    with Inl show ?thesis by (simp add: Point3D_init_def)
  next
    case (Inr t)
    then show ?thesis
      by (cases t) (simp add: Point3D_init_def Point3D_set_types_not_TypeError)
  qed
  have 3: "Point3D_init (Seq [u, v]) NoneVal NoneVal = Inl ValueError"
    by (simp add: Point3D_init_def)
  from 1 2 3 show ?thesis by simp
qed

theorem Point3D_missing_argument_witness:
  "Point3D_init (Num (NInt (PInt 1))) (Num (NInt (PInt 2))) NoneVal = Inl TypeError
   \<and> Point3D_init (Seq [Num (NInt (PInt 1)), Num (NInt (PInt 2)), Num (NInt (PInt 3))]) NoneVal NoneVal
       \<noteq> Inl TypeError
   \<and> Point3D_init (Seq [Num (NInt (PInt 1)), Num (NInt (PInt 2))]) NoneVal NoneVal = Inl ValueError"
  using Point3D_missing_argument [of "Num (NInt (PInt 2))" NoneVal "NInt (PInt 1)"
      "[Num (NInt (PInt 1)), Num (NInt (PInt 2)), Num (NInt (PInt 3))]"
      "Num (NInt (PInt 1))" "Num (NInt (PInt 2))"]
  by simp

section \<open>The unit vector of a zero vector\<close>

lemma zero_is_finite: "is_zero f \<Longrightarrow> \<not> is_inf f \<and> \<not> is_nan f"
  by (cases f) auto

lemma num_pow2_zero:
  "num_is_zero a \<Longrightarrow>
     num_pow2 sq a = Inr (NInt (PInt 0)) \<or> num_pow2 sq a = Inr (NFloat (Fin 0))"
  by (cases a) (auto simp: float_pow2_def zero_is_finite)

lemma num_add_zero:
  assumes "a = NInt (PInt 0) \<or> a = NFloat (Fin 0)" "b = NInt (PInt 0) \<or> b = NFloat (Fin 0)"
  shows "num_add a b = Inr (NInt (PInt 0)) \<or> num_add a b = Inr (NFloat (Fin 0))"
  using assms by (auto simp: float_of_int_0 float_add_def signed_zero_def)

lemma math_sqrt_zero:
  "a = NInt (PInt 0) \<or> a = NFloat (Fin 0) \<Longrightarrow> math_sqrt a = Inr (Fin 0)"
  by (auto simp: math_sqrt_def float_of_int_0 float_sqrt_def)

lemma num_truediv_by_zero:
  "num_is_zero a \<Longrightarrow> num_truediv a (Fin 0) = Inl ZeroDivisionError"
  by (cases a) (auto simp: num_truediv_def float_of_int_0 float_truediv_zero)

lemma Point2D_magnitude_zero:
  assumes "num_is_zero (Point2D_x p)" "num_is_zero (Point2D_y p)"
  shows "Point2D_magnitude sq p = Inr (Fin 0)"
proof -
  from num_pow2_zero [OF assms(1)] obtain xx where
    xx: "num_pow2 sq (Point2D_x p) = Inr xx" "xx = NInt (PInt 0) \<or> xx = NFloat (Fin 0)" by auto
  from num_pow2_zero [OF assms(2)] obtain yy where
    yy: "num_pow2 sq (Point2D_y p) = Inr yy" "yy = NInt (PInt 0) \<or> yy = NFloat (Fin 0)" by auto
  from num_add_zero [OF xx(2) yy(2)] obtain s where
    s: "num_add xx yy = Inr s" "s = NInt (PInt 0) \<or> s = NFloat (Fin 0)" by auto
  show ?thesis
    by (simp add: Point2D_magnitude_def xx(1) yy(1) s(1) math_sqrt_zero [OF s(2)])
qed

lemma Point3D_magnitude_zero:
  assumes "num_is_zero (Point3D_x p)" "num_is_zero (Point3D_y p)" "num_is_zero (Point3D_z p)"
  shows "Point3D_magnitude sq p = Inr (Fin 0)"
proof -
  from num_pow2_zero [OF assms(1)] obtain xx where
    xx: "num_pow2 sq (Point3D_x p) = Inr xx" "xx = NInt (PInt 0) \<or> xx = NFloat (Fin 0)" by auto
  from num_pow2_zero [OF assms(2)] obtain yy where
    yy: "num_pow2 sq (Point3D_y p) = Inr yy" "yy = NInt (PInt 0) \<or> yy = NFloat (Fin 0)" by auto
  from num_pow2_zero [OF assms(3)] obtain zz where
    zz: "num_pow2 sq (Point3D_z p) = Inr zz" "zz = NInt (PInt 0) \<or> zz = NFloat (Fin 0)" by auto
  from num_add_zero [OF xx(2) yy(2)] obtain s where
    s: "num_add xx yy = Inr s" "s = NInt (PInt 0) \<or> s = NFloat (Fin 0)" by auto
  from num_add_zero [OF s(2) zz(2)] obtain t where
    t: "num_add s zz = Inr t" "t = NInt (PInt 0) \<or> t = NFloat (Fin 0)" by auto
  show ?thesis
    by (simp add: Point3D_magnitude_def xx(1) yy(1) zz(1) s(1) t(1) math_sqrt_zero [OF t(2)])
qed

text \<open>
  Claim C10. For a point whose coordinates are all zero the magnitude is \<^verbatim>\<open>0.0\<close>, and
  \<^verbatim>\<open>unit_vector\<close> raises \<^verbatim>\<open>ZeroDivisionError\<close> (the float division by that
  magnitude) instead of returning a point with NaN or infinite coordinates; for
  \<^verbatim>\<open>Point2D\<close> and for \<^verbatim>\<open>Point3D\<close>, of either dtype, and whatever the C
  library's \<^verbatim>\<open>pow\<close> returns (\<open>sq\<close>).
\<close>

theorem unit_vector_of_zero_raises:
  assumes "num_is_zero (Point2D_x p2)" "num_is_zero (Point2D_y p2)"
    and "num_is_zero (Point3D_x p3)" "num_is_zero (Point3D_y p3)" "num_is_zero (Point3D_z p3)"
  shows "Point2D_magnitude sq p2 = Inr (Fin 0) \<and> Point2D_unit_vector sq p2 = Inl ZeroDivisionError
    \<and> Point3D_magnitude sq p3 = Inr (Fin 0) \<and> Point3D_unit_vector sq p3 = Inl ZeroDivisionError"
  using assms
  by (simp add: Point2D_unit_vector_def Point3D_unit_vector_def Point2D_magnitude_zero
      Point3D_magnitude_zero num_truediv_by_zero)

theorem unit_vector_of_zero_raises_witness:
  "Point2D_unit_vector rounded_square (Point2D_int (PInt 0) (PInt 0)) = Inl ZeroDivisionError
   \<and> Point3D_unit_vector rounded_square (Point3D_float (Fin 0) NegZero (Fin 0))
       = Inl ZeroDivisionError"
  using unit_vector_of_zero_raises [of "Point2D_int (PInt 0) (PInt 0)"
      "Point3D_float (Fin 0) NegZero (Fin 0)" rounded_square]
  by simp

section \<open>Arguments that are not numbers\<close>

text \<open>
  Claim C2 says that a boolean or \<^verbatim>\<open>None\<close> handed to a constructor as a coordinate
  raises the \<^verbatim>\<open>RuntimeError\<close> the specification calls TypeMismatch. A boolean is
  an instance of \<^verbatim>\<open>int\<close> and is accepted: \<^verbatim>\<open>Point2D(True, 2)\<close> is a point of
  dtype \<^verbatim>\<open>int\<close>. And \<^verbatim>\<open>None\<close> in the place of a later separate argument is
  what a left-out argument looks like: \<^verbatim>\<open>Point3D(1, None, 3)\<close> raises the
  \<^verbatim>\<open>TypeError\<close> of unpacking \<^verbatim>\<open>1\<close>.
\<close>

theorem non_numeric_component_counterexample:
  "Point2D_init (Num (NInt (PBool True))) (Num (NInt (PInt 2)))
     = Inr (Point2D_int (PBool True) (PInt 2))
   \<and> Point3D_init (Num (NInt (PInt 1))) NoneVal (Num (NInt (PInt 3))) = Inl TypeError"
  by (simp add: Point2D_init_def Point3D_init_def)

text \<open>
  Claim C2, amended. When some coordinate is not an instance of \<^verbatim>\<open>int\<close> (booleans
  are) or of \<^verbatim>\<open>float\<close> -- a string, a sequence, \<^verbatim>\<open>None\<close> inside a sequence or
  as first argument -- and the later separate arguments are all given (not
  \<^verbatim>\<open>None\<close>), the constructor raises \<^verbatim>\<open>RuntimeError\<close> and produces no instance:
  for \<^verbatim>\<open>Point2D\<close> and \<^verbatim>\<open>Point3D\<close>, separate arguments and sequence alike.
\<close>

theorem non_numeric_component_raises:
  "(a2 \<noteq> NoneVal \<and> (\<not> is_num a1 \<or> \<not> is_num a2)
      \<longrightarrow> Point2D_init a1 a2 = Inl RuntimeError)
   \<and> (\<not> is_num a1 \<or> \<not> is_num a2
      \<longrightarrow> Point2D_init (Seq [a1, a2]) NoneVal = Inl RuntimeError)
   \<and> (a2 \<noteq> NoneVal \<and> a3 \<noteq> NoneVal \<and> (\<not> is_num a1 \<or> \<not> is_num a2 \<or> \<not> is_num a3)
      \<longrightarrow> Point3D_init a1 a2 a3 = Inl RuntimeError)
   \<and> (\<not> is_num a1 \<or> \<not> is_num a2 \<or> \<not> is_num a3
      \<longrightarrow> Point3D_init (Seq [a1, a2, a3]) NoneVal NoneVal = Inl RuntimeError)"
proof -
  have two: "\<not> is_num x \<or> \<not> is_num y \<Longrightarrow> Point2D_set_types x y = Inl RuntimeError" for x y
    by (cases "(x, y)" rule: Point2D_set_types.cases) auto
  have three: "\<not> is_num x \<or> \<not> is_num y \<or> \<not> is_num z
      \<Longrightarrow> Point3D_set_types x y z = Inl RuntimeError" for x y z
    by (cases "(x, y, z)" rule: Point3D_set_types.cases) auto
  show ?thesis
    by (auto simp: Point2D_init_def Point3D_init_def two three)
qed

theorem non_numeric_component_raises_witness:
  "Point2D_init (Str ''1'') (Num (NFloat (Fin 2))) = Inl RuntimeError
   \<and> Point2D_init (Seq [Str ''1'', Num (NFloat (Fin 2))]) NoneVal = Inl RuntimeError
   \<and> Point3D_init (Str ''1'') (Num (NFloat (Fin 2))) (Num (NInt (PInt 3))) = Inl RuntimeError
   \<and> Point3D_init (Seq [Str ''1'', Num (NFloat (Fin 2)), Num (NInt (PInt 3))]) NoneVal NoneVal
       = Inl RuntimeError"
  using non_numeric_component_raises [of "Num (NFloat (Fin 2))" "Str ''1''" "Num (NInt (PInt 3))"]
  by simp

section \<open>Construction and the dtype\<close>

lemma py_float_exact: "fits_double a \<Longrightarrow> py_float a = Inr (as_float_exact a)"
  by (cases a) (simp_all add: float_of_int_exact)

lemma Point2D_set_types_ints:
  "Point2D_set_types (Num (NInt i)) (Num (NInt j)) = Inr (Point2D_int i j)"
  by simp

lemma Point2D_set_types_mixed:
  assumes "\<not> (is_int_num a \<and> is_int_num b)"
  shows "Point2D_set_types (Num a) (Num b) =
    bind_err (py_float a) (\<lambda>x. bind_err (py_float b) (\<lambda>y. Inr (Point2D_float x y)))"
  using assms by (cases a; cases b) simp_all

lemma Point3D_set_types_mixed:
  assumes "\<not> (is_int_num a \<and> is_int_num b \<and> is_int_num c)"
  shows "Point3D_set_types (Num a) (Num b) (Num c) =
    bind_err (py_float a) (\<lambda>x.
    bind_err (py_float b) (\<lambda>y.
    bind_err (py_float c) (\<lambda>z. Inr (Point3D_float x y z))))"
  using assms by (cases a; cases b; cases c) simp_all

lemma Point2D_init_separate: "Point2D_init (Num a) (Num b) = Point2D_set_types (Num a) (Num b)"
  by (simp add: Point2D_init_def)

lemma Point2D_init_sequence: "Point2D_init (Seq [x, y]) NoneVal = Point2D_set_types x y"
  by (simp add: Point2D_init_def)

lemma Point3D_init_separate:
  "Point3D_init (Num a) (Num b) (Num c) = Point3D_set_types (Num a) (Num b) (Num c)"
  by (simp add: Point3D_init_def)

lemma Point3D_init_sequence:
  "Point3D_init (Seq [x, y, z]) NoneVal NoneVal = Point3D_set_types x y z"
  by (simp add: Point3D_init_def)

text \<open>
  Claim C1 says that next to a float every int coordinate is stored as a float equal in
  value to it. \<^verbatim>\<open>_set_types\<close> converts with \<^verbatim>\<open>float\<close>, which rounds to 53
  significant bits: \<^verbatim>\<open>Point2D(2**53 + 1, 0.5)\<close> stores \<^verbatim>\<open>x = 9007199254740992.0\<close>,
  which is not equal to \<^verbatim>\<open>2**53 + 1\<close>.
\<close>

theorem construction_unifies_types_counterexample:
  "Point2D_init (Num (NInt (PInt 9007199254740993))) (Num (NFloat (Fin (1 / 2))))
     = Inr (Point2D_float (Fin 9007199254740992) (Fin (1 / 2)))
   \<and> \<not> num_eq (NFloat (Fin 9007199254740992)) (NInt (PInt 9007199254740993))"
  by code_simp

text \<open>
  Claim C1, amended. For \<^verbatim>\<open>Point2D\<close> and \<^verbatim>\<open>Point3D\<close>, from separate arguments
  and from a sequence alike: when every component is an int, the point has dtype
  \<^verbatim>\<open>int\<close> and stores exactly the given ints; when at least one component is a
  float and every int component has magnitude at most \<open>2 ^ 53\<close>, the point has dtype
  \<^verbatim>\<open>float\<close> and every stored component is a float of exactly the given value.
\<close>

theorem construction_unifies_types:
  "Point2D_init (Num (NInt i)) (Num (NInt j)) = Inr (Point2D_int i j)
   \<and> Point2D_init (Seq [Num (NInt i), Num (NInt j)]) NoneVal = Inr (Point2D_int i j)
   \<and> Point2D_dtype (Point2D_int i j) = ''int''
   \<and> Point2D_x (Point2D_int i j) = NInt i \<and> Point2D_y (Point2D_int i j) = NInt j
   \<and> Point3D_init (Num (NInt i)) (Num (NInt j)) (Num (NInt k)) = Inr (Point3D_int i j k)
   \<and> Point3D_init (Seq [Num (NInt i), Num (NInt j), Num (NInt k)]) NoneVal NoneVal
       = Inr (Point3D_int i j k)
   \<and> Point3D_dtype (Point3D_int i j k) = ''int''
   \<and> Point3D_x (Point3D_int i j k) = NInt i \<and> Point3D_y (Point3D_int i j k) = NInt j
   \<and> Point3D_z (Point3D_int i j k) = NInt k
   \<and> (\<not> (is_int_num a \<and> is_int_num b) \<and> fits_double a \<and> fits_double b \<longrightarrow>
        (\<exists>p. Point2D_init (Num a) (Num b) = Inr p
           \<and> Point2D_init (Seq [Num a, Num b]) NoneVal = Inr p
           \<and> Point2D_dtype p = ''float''
           \<and> Point2D_x p = NFloat (as_float_exact a)
           \<and> Point2D_y p = NFloat (as_float_exact b)))
   \<and> (\<not> (is_int_num a \<and> is_int_num b \<and> is_int_num c)
        \<and> fits_double a \<and> fits_double b \<and> fits_double c \<longrightarrow>
        (\<exists>p. Point3D_init (Num a) (Num b) (Num c) = Inr p
           \<and> Point3D_init (Seq [Num a, Num b, Num c]) NoneVal NoneVal = Inr p
           \<and> Point3D_dtype p = ''float''
           \<and> Point3D_x p = NFloat (as_float_exact a)
           \<and> Point3D_y p = NFloat (as_float_exact b)
           \<and> Point3D_z p = NFloat (as_float_exact c)))"
proof -
  have ints: "Point2D_init (Num (NInt i)) (Num (NInt j)) = Inr (Point2D_int i j)
      \<and> Point2D_init (Seq [Num (NInt i), Num (NInt j)]) NoneVal = Inr (Point2D_int i j)
      \<and> Point3D_init (Num (NInt i)) (Num (NInt j)) (Num (NInt k)) = Inr (Point3D_int i j k)
      \<and> Point3D_init (Seq [Num (NInt i), Num (NInt j), Num (NInt k)]) NoneVal NoneVal
          = Inr (Point3D_int i j k)"
    by (simp add: Point2D_init_def Point3D_init_def)
  have two: "\<exists>p. Point2D_init (Num a) (Num b) = Inr p
           \<and> Point2D_init (Seq [Num a, Num b]) NoneVal = Inr p
           \<and> Point2D_dtype p = ''float''
           \<and> Point2D_x p = NFloat (as_float_exact a)
           \<and> Point2D_y p = NFloat (as_float_exact b)"
    if "\<not> (is_int_num a \<and> is_int_num b)" "fits_double a" "fits_double b"
    using that
    by (simp add: Point2D_init_separate Point2D_init_sequence Point2D_set_types_mixed
        py_float_exact)
  have three: "\<exists>p. Point3D_init (Num a) (Num b) (Num c) = Inr p
           \<and> Point3D_init (Seq [Num a, Num b, Num c]) NoneVal NoneVal = Inr p
           \<and> Point3D_dtype p = ''float''
           \<and> Point3D_x p = NFloat (as_float_exact a)
           \<and> Point3D_y p = NFloat (as_float_exact b)
           \<and> Point3D_z p = NFloat (as_float_exact c)"
    if "\<not> (is_int_num a \<and> is_int_num b \<and> is_int_num c)"
      "fits_double a" "fits_double b" "fits_double c"
    using that
    by (simp add: Point3D_init_separate Point3D_init_sequence Point3D_set_types_mixed
        py_float_exact)
  from ints two three show ?thesis by simp
qed

theorem construction_unifies_types_witness:
  "Point3D_init (Num (NInt (PInt 1))) (Num (NInt (PInt 2))) (Num (NInt (PInt 3)))
     = Inr (Point3D_int (PInt 1) (PInt 2) (PInt 3))
   \<and> (\<exists>p. Point2D_init (Num (NInt (PInt 3))) (Num (NFloat (Fin (1 / 2)))) = Inr p
         \<and> Point2D_dtype p = ''float''
         \<and> Point2D_x p = NFloat (Fin 3) \<and> Point2D_y p = NFloat (Fin (1 / 2)))
   \<and> (\<exists>p. Point3D_init (Seq [Num (NInt (PInt 3)), Num (NFloat (Fin (1 / 2))), Num (NInt (PInt 1))])
           NoneVal NoneVal = Inr p
         \<and> Point3D_dtype p = ''float''
         \<and> Point3D_x p = NFloat (Fin 3) \<and> Point3D_y p = NFloat (Fin (1 / 2))
         \<and> Point3D_z p = NFloat (Fin 1))"
  using construction_unifies_types [of "PInt 1" "PInt 2" "PInt 3"
      "NInt (PInt 3)" "NFloat (Fin (1 / 2))" "NInt (PInt 1)"]
  by auto

section \<open>Casting to int\<close>

lemma round_half_even_nearest:
  "\<bar>q - of_int (round_half_even q)\<bar> \<le> 1 / 2
   \<and> (\<bar>q - of_int (round_half_even q)\<bar> = 1 / 2 \<longrightarrow> even (round_half_even q))"
proof -
  define f where "f = \<lfloor>q\<rfloor>"
  define d where "d = q - of_int f"
  have d0: "0 \<le> d" and d1: "d < 1" unfolding d_def f_def by linarith+
  have q: "q = of_int f + d" by (simp add: d_def)
  consider "d < 1 / 2" | "1 / 2 < d" | "d = 1 / 2" by linarith
  then show ?thesis
  proof cases
    case 1
    then have "round_half_even q = f" by (simp add: round_half_even_def f_def d_def Let_def)
    with 1 d0 q show ?thesis by simp
  next
    case 2
    then have "round_half_even q = f + 1" by (simp add: round_half_even_def f_def d_def Let_def)
    with 2 d1 q show ?thesis by simp
  next
    case 3
    show ?thesis
    proof (cases "even f")
      case True
      with 3 have "round_half_even q = f" by (simp add: round_half_even_def f_def d_def Let_def)
      with 3 True q show ?thesis by simp
    next
      case False
      with 3 have "round_half_even q = f + 1"
        by (simp add: round_half_even_def f_def d_def Let_def)
      with 3 False q show ?thesis by simp
    qed
  qed
qed

lemma round_half_even_zero [simp]: "round_half_even 0 = 0"
  using round_half_even_of_int [of 0] by simp

lemma int_round0_finite:
  "num_is_finite a \<Longrightarrow> int_round0 a = Inr (round_half_even (num_val a))"
proof (cases a)
  case (NInt i)
  then show ?thesis by simp
next
  case (NFloat f)
  assume "num_is_finite a"
  with NFloat have fin: "\<not> is_inf f" "\<not> is_nan f" by simp_all
  show ?thesis
  proof (cases f)
    case (Fin q)
    with NFloat show ?thesis
      by (simp add: float_round0_def int_of_float_def Let_def)
  next
    case NegZero
    with NFloat show ?thesis by (simp add: float_round0_def int_of_float_def)
  qed (use fin in simp_all)
qed

lemma Point2D_init_ints:
  "Point2D_init (Num (NInt i)) (Num (NInt j)) = Inr (Point2D_int i j)"
  by (simp add: Point2D_init_def)

lemma Point3D_init_ints:
  "Point3D_init (Num (NInt i)) (Num (NInt j)) (Num (NInt k)) = Inr (Point3D_int i j k)"
  by (simp add: Point3D_init_def)

lemma Point2D_init_floats:
  "Point2D_init (Num (NFloat a)) (Num (NFloat b)) = Inr (Point2D_float a b)"
  by (simp add: Point2D_init_def)

lemma Point3D_init_floats:
  "Point3D_init (Num (NFloat a)) (Num (NFloat b)) (Num (NFloat c)) = Inr (Point3D_float a b c)"
  by (simp add: Point3D_init_def)

text \<open>
  Claim C4 speaks of every point. A float coordinate can be an infinity or a NaN (the
  constructor accepts any \<^verbatim>\<open>float\<close>); \<^verbatim>\<open>round\<close> leaves it as it is and
  \<^verbatim>\<open>int\<close> then raises \<^verbatim>\<open>OverflowError\<close>, respectively \<^verbatim>\<open>ValueError\<close>, so
  \<^verbatim>\<open>astype("int")\<close> returns no point.
\<close>

theorem astype_int_counterexample:
  "Point2D_init (Num (NFloat PosInf)) (Num (NFloat (Fin 0))) = Inr (Point2D_float PosInf (Fin 0))
   \<and> Point2D_astype (Point2D_float PosInf (Fin 0)) ''int'' = Inl OverflowError
   \<and> Point3D_init (Num (NFloat NaN)) (Num (NFloat (Fin 0))) (Num (NFloat (Fin 0)))
       = Inr (Point3D_float NaN (Fin 0) (Fin 0))
   \<and> Point3D_astype (Point3D_float NaN (Fin 0) (Fin 0)) ''int'' = Inl ValueError"
  by (simp add: Point2D_init_floats Point3D_init_floats Point2D_astype_def Point3D_astype_def
      float_round0_def int_of_float_def)

text \<open>
  Claim C4, amended. For every point whose coordinates are finite,
  \<^verbatim>\<open>astype("int")\<close> returns an int-typed point whose coordinates are the point's
  coordinates, each rounded on its own to the nearest integer, a tie going to the even
  neighbour: the result is within one half of the coordinate, and even when it is
  exactly one half away. In particular \<^verbatim>\<open>Point3D(5.9, 8.2, 9.5).astype("int")\<close> is
  \<^verbatim>\<open>Point3D(6, 8, 10)\<close>.
\<close>

theorem astype_int_rounds_half_even:
  "(num_is_finite (Point2D_x p2) \<and> num_is_finite (Point2D_y p2) \<longrightarrow>
      Point2D_astype p2 ''int'' =
        Inr (Point2D_int (PInt (round_half_even (num_val (Point2D_x p2))))
                         (PInt (round_half_even (num_val (Point2D_y p2))))))
   \<and> (num_is_finite (Point3D_x p3) \<and> num_is_finite (Point3D_y p3)
       \<and> num_is_finite (Point3D_z p3) \<longrightarrow>
      Point3D_astype p3 ''int'' =
        Inr (Point3D_int (PInt (round_half_even (num_val (Point3D_x p3))))
                         (PInt (round_half_even (num_val (Point3D_y p3))))
                         (PInt (round_half_even (num_val (Point3D_z p3))))))
   \<and> \<bar>q - of_int (round_half_even q)\<bar> \<le> 1 / 2
   \<and> (\<bar>q - of_int (round_half_even q)\<bar> = 1 / 2 \<longrightarrow> even (round_half_even q))
   \<and> bind_err (Point3D_init (Num (NFloat (round_to_double (59 / 10))))
          (Num (NFloat (round_to_double (82 / 10)))) (Num (NFloat (round_to_double (95 / 10)))))
        (\<lambda>p. Point3D_astype p ''int'')
       = Point3D_init (Num (NInt (PInt 6))) (Num (NInt (PInt 8))) (Num (NInt (PInt 10)))
   \<and> Point3D_init (Num (NInt (PInt 6))) (Num (NInt (PInt 8))) (Num (NInt (PInt 10)))
       = Inr (Point3D_int (PInt 6) (PInt 8) (PInt 10))"
proof -
  have a: "num_is_finite (Point2D_x p2) \<and> num_is_finite (Point2D_y p2) \<longrightarrow>
      Point2D_astype p2 ''int'' =
        Inr (Point2D_int (PInt (round_half_even (num_val (Point2D_x p2))))
                         (PInt (round_half_even (num_val (Point2D_y p2)))))"
    by (simp add: Point2D_astype_def int_round0_finite Point2D_init_ints)
  have b: "num_is_finite (Point3D_x p3) \<and> num_is_finite (Point3D_y p3)
       \<and> num_is_finite (Point3D_z p3) \<longrightarrow>
      Point3D_astype p3 ''int'' =
        Inr (Point3D_int (PInt (round_half_even (num_val (Point3D_x p3))))
                         (PInt (round_half_even (num_val (Point3D_y p3))))
                         (PInt (round_half_even (num_val (Point3D_z p3)))))"
    by (simp add: Point3D_astype_def int_round0_finite Point3D_init_ints)
  have c: "bind_err (Point3D_init (Num (NFloat (round_to_double (59 / 10))))
          (Num (NFloat (round_to_double (82 / 10)))) (Num (NFloat (round_to_double (95 / 10)))))
        (\<lambda>p. Point3D_astype p ''int'')
       = Point3D_init (Num (NInt (PInt 6))) (Num (NInt (PInt 8))) (Num (NInt (PInt 10)))"
    by code_simp
  from a b c round_half_even_nearest [of q] show ?thesis
    by (simp add: Point3D_init_ints)
qed

theorem astype_int_rounds_half_even_witness:
  "Point2D_astype (Point2D_float (Fin (5 / 2)) (Fin (- 7 / 2))) ''int''
     = Inr (Point2D_int (PInt 2) (PInt (- 4)))
   \<and> Point3D_astype (Point3D_float (Fin (1 / 2)) (Fin (3 / 2)) (Fin (29 / 10))) ''int''
     = Inr (Point3D_int (PInt 0) (PInt 2) (PInt 3))"
proof -
  have r: "round_half_even (5 / 2) = 2" "round_half_even (- (7 / 2)) = - 4"
    "round_half_even (1 / 2) = 0" "round_half_even (3 / 2) = 2" "round_half_even (29 / 10) = 3"
    by code_simp+
  show ?thesis
    using astype_int_rounds_half_even [of "Point2D_float (Fin (5 / 2)) (Fin (- 7 / 2))"
        "Point3D_float (Fin (1 / 2)) (Fin (3 / 2)) (Fin (29 / 10))" 0]
    by (simp add: r)
qed

section \<open>Casting to float and back\<close>

lemma int_of_float_of_int: "int_of_float (float_round0 (Fin (of_int n))) = Inr n"
  by (simp add: float_round0_def int_of_float_def Let_def)

text \<open>
  Claim C8 says that on an int-typed point the cast to float and back agrees with the
  cast to int. The cast to float rounds to 53 significant bits:
  \<^verbatim>\<open>Point2D(2**53 + 1, 0)\<close> comes back as \<^verbatim>\<open>Point2D(2**53, 0)\<close>, which
  \<^verbatim>\<open>__eq__\<close> tells apart from the direct cast.
\<close>

theorem astype_round_trip_counterexample:
  "Point2D_astype (Point2D_int (PInt 9007199254740993) (PInt 0)) ''float''
     = Inr (Point2D_float (Fin 9007199254740992) (Fin 0))
   \<and> Point2D_astype (Point2D_float (Fin 9007199254740992) (Fin 0)) ''int''
     = Inr (Point2D_int (PInt 9007199254740992) (PInt 0))
   \<and> Point2D_astype (Point2D_int (PInt 9007199254740993) (PInt 0)) ''int''
     = Inr (Point2D_int (PInt 9007199254740993) (PInt 0))
   \<and> \<not> Point2D_eq (Point2D_int (PInt 9007199254740992) (PInt 0))
         (Point2D_int (PInt 9007199254740993) (PInt 0))"
  by code_simp

text \<open>
  Claim C8, amended. For every int-typed point whose coordinates have magnitude at most
  \<open>2 ^ 53\<close>, \<^verbatim>\<open>p.astype("float").astype("int")\<close> and \<^verbatim>\<open>p.astype("int")\<close> both
  return a point, the same one, and \<^verbatim>\<open>==\<close> holds between them; for \<^verbatim>\<open>Point2D\<close>
  and for \<^verbatim>\<open>Point3D\<close>.
\<close>

theorem astype_round_trip:
  "(\<bar>int_val i\<bar> \<le> 2 ^ 53 \<and> \<bar>int_val j\<bar> \<le> 2 ^ 53 \<longrightarrow>
      (\<exists>r. bind_err (Point2D_astype (Point2D_int i j) ''float'') (\<lambda>q. Point2D_astype q ''int'')
             = Inr r
         \<and> Point2D_astype (Point2D_int i j) ''int'' = Inr r
         \<and> Point2D_eq r r))
   \<and> (\<bar>int_val i\<bar> \<le> 2 ^ 53 \<and> \<bar>int_val j\<bar> \<le> 2 ^ 53 \<and> \<bar>int_val k\<bar> \<le> 2 ^ 53 \<longrightarrow>
      (\<exists>r. bind_err (Point3D_astype (Point3D_int i j k) ''float'') (\<lambda>q. Point3D_astype q ''int'')
             = Inr r
         \<and> Point3D_astype (Point3D_int i j k) ''int'' = Inr r
         \<and> Point3D_eq r r))"
proof -
  have two: "\<exists>r. bind_err (Point2D_astype (Point2D_int i j) ''float'')
                 (\<lambda>q. Point2D_astype q ''int'') = Inr r
         \<and> Point2D_astype (Point2D_int i j) ''int'' = Inr r
         \<and> Point2D_eq r r"
    if "\<bar>int_val i\<bar> \<le> 2 ^ 53" "\<bar>int_val j\<bar> \<le> 2 ^ 53"
  proof -
    have f: "Point2D_astype (Point2D_int i j) ''float''
        = Inr (Point2D_float (Fin (of_int (int_val i))) (Fin (of_int (int_val j))))"
      using that by (simp add: Point2D_astype_def float_of_int_exact Point2D_init_floats)
    have b: "Point2D_astype (Point2D_float (Fin (of_int (int_val i))) (Fin (of_int (int_val j))))
          ''int'' = Inr (Point2D_int (PInt (int_val i)) (PInt (int_val j)))"
      by (simp add: Point2D_astype_def int_of_float_of_int Point2D_init_ints)
    have d: "Point2D_astype (Point2D_int i j) ''int''
        = Inr (Point2D_int (PInt (int_val i)) (PInt (int_val j)))"
      by (simp add: Point2D_astype_def Point2D_init_ints)
    show ?thesis by (simp add: f b d Point2D_eq_def)
  qed
  have three: "\<exists>r. bind_err (Point3D_astype (Point3D_int i j k) ''float'')
                 (\<lambda>q. Point3D_astype q ''int'') = Inr r
         \<and> Point3D_astype (Point3D_int i j k) ''int'' = Inr r
         \<and> Point3D_eq r r"
    if "\<bar>int_val i\<bar> \<le> 2 ^ 53" "\<bar>int_val j\<bar> \<le> 2 ^ 53" "\<bar>int_val k\<bar> \<le> 2 ^ 53"
  proof -
    have f: "Point3D_astype (Point3D_int i j k) ''float''
        = Inr (Point3D_float (Fin (of_int (int_val i))) (Fin (of_int (int_val j)))
                 (Fin (of_int (int_val k))))"
      using that by (simp add: Point3D_astype_def float_of_int_exact Point3D_init_floats)
    have b: "Point3D_astype (Point3D_float (Fin (of_int (int_val i))) (Fin (of_int (int_val j)))
                 (Fin (of_int (int_val k)))) ''int''
        = Inr (Point3D_int (PInt (int_val i)) (PInt (int_val j)) (PInt (int_val k)))"
      by (simp add: Point3D_astype_def int_of_float_of_int Point3D_init_ints)
    have d: "Point3D_astype (Point3D_int i j k) ''int''
        = Inr (Point3D_int (PInt (int_val i)) (PInt (int_val j)) (PInt (int_val k)))"
      by (simp add: Point3D_astype_def Point3D_init_ints)
    show ?thesis by (simp add: f b d Point3D_eq_def)
  qed
  from two three show ?thesis by blast
qed

theorem astype_round_trip_witness:
  "(\<exists>r. bind_err (Point2D_astype (Point2D_int (PInt 5) (PInt (- 8))) ''float'')
          (\<lambda>q. Point2D_astype q ''int'') = Inr r
      \<and> Point2D_astype (Point2D_int (PInt 5) (PInt (- 8))) ''int'' = Inr r)
   \<and> (\<exists>r. bind_err (Point3D_astype (Point3D_int (PInt 5) (PInt (- 8)) (PBool True)) ''float'')
          (\<lambda>q. Point3D_astype q ''int'') = Inr r
      \<and> Point3D_astype (Point3D_int (PInt 5) (PInt (- 8)) (PBool True)) ''int'' = Inr r)"
  using astype_round_trip [of "PInt 5" "PInt (- 8)" "PBool True"]
  by auto

section \<open>Scalar division\<close>

lemma float_of_int_error: "float_of_int n = Inl e \<Longrightarrow> e = OverflowError"
  by (auto simp: float_of_int_def split: pyfloat.splits)

lemma py_float_error: "py_float a = Inl e \<Longrightarrow> e = OverflowError"
  by (cases a) (auto dest: float_of_int_error)

lemma pow2_pos: "0 < pow2 e"
  by (simp add: pow2_def)

lemma pow2_shift_le: "0 \<le> e \<Longrightarrow> pow2 (e - 52) \<le> pow2 e"
proof (cases "0 \<le> e - 52")
  case True
  assume "0 \<le> e"
  with True have "nat (e - 52) \<le> nat e" by simp
  then have "(2::int) ^ nat (e - 52) \<le> 2 ^ nat e" by (simp only: power_increasing_iff) 
  then have "rat_of_int (2 ^ nat (e - 52)) \<le> of_int (2 ^ nat e)" by (simp only: of_int_le_iff)
  with True \<open>0 \<le> e\<close> show ?thesis by (simp add: pow2_def)
next
  case False
  assume e: "0 \<le> e"
  have a: "pow2 (e - 52) \<le> 1"
  proof -
    have "(1::rat) \<le> 2 ^ nat (52 - e)" by (rule one_le_power) simp
    then have "1 / (2::rat) ^ nat (52 - e) \<le> 1" by (simp add: divide_le_eq)
    with False show ?thesis by (simp add: pow2_def)
  qed
  have b: "1 \<le> pow2 e"
  proof -
    have "(1::rat) \<le> 2 ^ nat e" by (rule one_le_power) simp
    with e show ?thesis by (simp add: pow2_def)
  qed
  from a b show ?thesis by (rule order_trans)
qed

lemma round_half_even_ge_one: "1 \<le> q \<Longrightarrow> 1 \<le> round_half_even q"
proof -
  assume q: "1 \<le> q"
  have "\<bar>q - of_int (round_half_even q)\<bar> \<le> 1 / 2"
    using round_half_even_nearest [of q] by simp
  then have "q - 1 / 2 \<le> of_int (round_half_even q)" by linarith
  with q have "(0::rat) < of_int (round_half_even q)" by linarith
  then have "0 < round_half_even q" by (simp only: of_int_0_less_iff)
  then show ?thesis by simp
qed

lemma round_to_double_int_nonzero:
  assumes n: "0 < n"
  shows "\<not> is_zero (round_to_double (of_int n)) \<and> \<not> is_zero (round_to_double (- of_int n))"
proof -
  define e where "e = bit_length n - 1"
  have e0: "0 \<le> e" using bit_length_pos [OF n] e_def by simp
  have il: "ilog2 (of_int n) = e" using ilog2_of_int [OF n] e_def by simp
  have mx: "max e (- 1022) = e" using e0 by simp
  define u where "u = pow2 (e - 52)"
  have upos: "0 < u" by (simp add: u_def pow2_pos)
  have "rat_of_int (2 ^ nat e) \<le> of_int n"
    using bit_length_lower [OF n] e_def by (simp only: of_int_le_iff)
  then have "pow2 e \<le> of_int n" using e0 by (simp add: pow2_def)
  with pow2_shift_le [OF e0] have "u \<le> of_int n" by (simp add: u_def)
  with upos have "1 \<le> rat_of_int n / u" by (simp add: le_divide_eq)
  then have "1 \<le> round_half_even (rat_of_int n / u)" by (rule round_half_even_ge_one)
  then have m: "round_half_even (rat_of_int n / u) \<noteq> 0" by simp
  have u0: "u \<noteq> 0" using upos by simp
  have abs: "\<bar>rat_of_int n\<bar> = of_int n" "\<bar>- rat_of_int n\<bar> = of_int n" using n by simp_all
  from m u0 n show ?thesis
    by (simp add: round_to_double_def abs il mx Let_def u_def [symmetric])
qed

lemma float_of_int_nonzero:
  assumes "n \<noteq> 0" "float_of_int n = Inr f"
  shows "\<not> is_zero f"
proof -
  have f: "f = round_to_double (of_int n)"
    using assms(2) by (auto simp: float_of_int_def split: pyfloat.splits)
  show ?thesis
  proof (cases "0 < n")
    case True
    from round_to_double_int_nonzero [OF True] show ?thesis by (simp add: f)
  next
    case False
    with assms(1) have p: "0 < - n" by simp
    from round_to_double_int_nonzero [OF p] show ?thesis by (simp add: f)
  qed
qed

lemma py_float_nonzero: "\<not> num_is_zero s \<Longrightarrow> py_float s = Inr f \<Longrightarrow> \<not> is_zero f"
  by (cases s) (auto dest: float_of_int_nonzero)

lemma float_truediv_nonzero:
  "\<not> is_zero f \<Longrightarrow> \<exists>r. float_truediv a f = Inr r"
  by (simp add: float_truediv_def)

lemma reciprocal_nonzero:
  "\<not> is_zero f \<Longrightarrow>
     \<exists>r. num_truediv (NInt (PInt 1)) f = Inr r \<and> float_truediv (Fin 1) f = Inr r"
  by (simp add: num_truediv_def float_of_int_1 float_truediv_def)

lemma num_mul_float:
  "(num_mul a (NFloat r) = Inl OverflowError \<and> \<not> fits_double a)
   \<or> (\<exists>x. num_mul a (NFloat r) = Inr (NFloat x))"
proof (cases a)
  case (NInt i)
  show ?thesis
  proof (cases "float_of_int (int_val i)")
    case (Inl e)
    then have e: "e = OverflowError" by (rule float_of_int_error)
    have "\<not> \<bar>int_val i\<bar> \<le> 2 ^ 53" using Inl float_of_int_exact [of "int_val i"] by auto
    with NInt Inl e show ?thesis by simp
  next
    case (Inr x)
    with NInt show ?thesis by simp
  qed
next
  case (NFloat f)
  then show ?thesis by simp
qed

lemma num_mul_float_fits: "fits_double a \<Longrightarrow> \<exists>x. num_mul a (NFloat r) = Inr (NFloat x)"
  using num_mul_float [of a r] by auto

lemma reciprocal_cases:
  assumes "\<not> num_is_zero s"
  shows "(py_float s = Inl OverflowError \<and> \<not> fits_double s)
    \<or> (\<exists>f r. py_float s = Inr f \<and> num_truediv (NInt (PInt 1)) f = Inr r
           \<and> float_truediv (Fin 1) f = Inr r)"
proof (cases "py_float s")
  case (Inl e)
  then have "e = OverflowError" by (rule py_float_error)
  moreover have "\<not> fits_double s" using Inl py_float_exact [of s] by auto
  ultimately show ?thesis using Inl by simp
next
  case (Inr f)
  with assms have "\<not> is_zero f" by (rule py_float_nonzero)
  from reciprocal_nonzero [OF this] Inr show ?thesis by auto
qed

lemma Point2D_mul_float:
  "(Point2D_mul p (NFloat r) = Inl OverflowError
      \<and> \<not> (fits_double (Point2D_x p) \<and> fits_double (Point2D_y p)))
   \<or> (\<exists>x y. Point2D_mul p (NFloat r) = Inr (Point2D_float x y)
         \<and> num_mul (Point2D_x p) (NFloat r) = Inr (NFloat x)
         \<and> num_mul (Point2D_y p) (NFloat r) = Inr (NFloat y))"
  using num_mul_float [of "Point2D_x p" r] num_mul_float [of "Point2D_y p" r]
  by (auto simp: Point2D_mul_def Point2D_init_floats)

lemma Point3D_mul_float:
  "(Point3D_mul p (NFloat r) = Inl OverflowError
      \<and> \<not> (fits_double (Point3D_x p) \<and> fits_double (Point3D_y p) \<and> fits_double (Point3D_z p)))
   \<or> (\<exists>x y z. Point3D_mul p (NFloat r) = Inr (Point3D_float x y z)
         \<and> num_mul (Point3D_x p) (NFloat r) = Inr (NFloat x)
         \<and> num_mul (Point3D_y p) (NFloat r) = Inr (NFloat y)
         \<and> num_mul (Point3D_z p) (NFloat r) = Inr (NFloat z))"
  using num_mul_float [of "Point3D_x p" r] num_mul_float [of "Point3D_y p" r]
    num_mul_float [of "Point3D_z p" r]
  by (auto simp: Point3D_mul_def Point3D_init_floats)

lemma Point2D_div_cases:
  assumes "\<not> num_is_zero s"
  shows "(Point2D_div p s = Inl OverflowError
      \<and> \<not> (fits_double s \<and> fits_double (Point2D_x p) \<and> fits_double (Point2D_y p)))
   \<or> (\<exists>f r x y. Point2D_div p s = Inr (Point2D_float x y)
         \<and> py_float s = Inr f \<and> float_truediv (Fin 1) f = Inr r
         \<and> num_mul (Point2D_x p) (NFloat r) = Inr (NFloat x)
         \<and> num_mul (Point2D_y p) (NFloat r) = Inr (NFloat y))"
proof -
  from reciprocal_cases [OF assms] show ?thesis
  proof
    assume "py_float s = Inl OverflowError \<and> \<not> fits_double s"
    then show ?thesis by (simp add: Point2D_div_def)
  next
    assume "\<exists>f r. py_float s = Inr f \<and> num_truediv (NInt (PInt 1)) f = Inr r
           \<and> float_truediv (Fin 1) f = Inr r"
    then obtain f r where fr: "py_float s = Inr f" "num_truediv (NInt (PInt 1)) f = Inr r"
      "float_truediv (Fin 1) f = Inr r" by blast
    then have d: "Point2D_div p s = Point2D_mul p (NFloat r)" by (simp add: Point2D_div_def)
    from Point2D_mul_float [of p r] show ?thesis
      unfolding d using fr(1,3) by blast
  qed
qed

lemma Point3D_div_cases:
  assumes "\<not> num_is_zero s"
  shows "(Point3D_div p s = Inl OverflowError
      \<and> \<not> (fits_double s \<and> fits_double (Point3D_x p) \<and> fits_double (Point3D_y p)
            \<and> fits_double (Point3D_z p)))
   \<or> (\<exists>f r x y z. Point3D_div p s = Inr (Point3D_float x y z)
         \<and> py_float s = Inr f \<and> float_truediv (Fin 1) f = Inr r
         \<and> num_mul (Point3D_x p) (NFloat r) = Inr (NFloat x)
         \<and> num_mul (Point3D_y p) (NFloat r) = Inr (NFloat y)
         \<and> num_mul (Point3D_z p) (NFloat r) = Inr (NFloat z))"
proof -
  from reciprocal_cases [OF assms] show ?thesis
  proof
    assume "py_float s = Inl OverflowError \<and> \<not> fits_double s"
    then show ?thesis by (simp add: Point3D_div_def)
  next
    assume "\<exists>f r. py_float s = Inr f \<and> num_truediv (NInt (PInt 1)) f = Inr r
           \<and> float_truediv (Fin 1) f = Inr r"
    then obtain f r where fr: "py_float s = Inr f" "num_truediv (NInt (PInt 1)) f = Inr r"
      "float_truediv (Fin 1) f = Inr r" by blast
    then have d: "Point3D_div p s = Point3D_mul p (NFloat r)" by (simp add: Point3D_div_def)
    from Point3D_mul_float [of p r] show ?thesis
      unfolding d using fr(1,3) by blast
  qed
qed

lemma bit_length_upper: "0 < n \<Longrightarrow> n < 2 ^ nat (bit_length n)"
proof (induction n rule: bit_length.induct)
  case (1 n)
  have eq: "bit_length n = 1 + bit_length (n div 2)"
    using 1(2) by (subst bit_length.simps) simp
  show ?case
  proof (cases "0 < n div 2")
    case True
    with 1 have ih: "n div 2 < 2 ^ nat (bit_length (n div 2))" by simp
    from True have bp: "1 \<le> bit_length (n div 2)" by (rule bit_length_pos)
    have "nat (bit_length n) = Suc (nat (bit_length (n div 2)))" using eq bp by simp
    then have p: "(2::int) ^ nat (bit_length n) = 2 * 2 ^ nat (bit_length (n div 2))" by simp
    have "n < 2 * (n div 2 + 1)" by simp
    also have "\<dots> \<le> 2 * 2 ^ nat (bit_length (n div 2))" using ih by simp
    finally show ?thesis by (simp only: p)
  next
    case False
    with 1(2) have n1: "n = 1" by simp
    then show ?thesis by (simp add: bit_length_one)
  qed
qed

lemma pow2_powi: "pow2 e = 2 powi e"
  by (simp add: pow2_def power_int_def power_one_over [symmetric] inverse_eq_divide)

lemma pow2_add: "pow2 (i + j) = pow2 i * pow2 j"
  by (simp add: pow2_powi power_int_add)

lemma pow2_mono: "i \<le> j \<Longrightarrow> pow2 i \<le> pow2 j"
  by (simp add: pow2_powi power_int_increasing)

lemma pow2_strict_mono: "i < j \<Longrightarrow> pow2 i < pow2 j"
  by (simp add: pow2_powi power_int_strict_increasing)

lemma pow2_of_bit_length:
  assumes "0 < n"
  shows "pow2 (bit_length n - 1) \<le> of_int n" "of_int n < pow2 (bit_length n)"
proof -
  have b: "1 \<le> bit_length n" using assms by (rule bit_length_pos)
  have "rat_of_int (2 ^ nat (bit_length n - 1)) \<le> of_int n"
    using bit_length_lower [OF assms] by (simp only: of_int_le_iff)
  with b show "pow2 (bit_length n - 1) \<le> of_int n" by (simp add: pow2_def)
  have "rat_of_int n < of_int (2 ^ nat (bit_length n))"
    using bit_length_upper [OF assms] by (simp only: of_int_less_iff)
  with b show "of_int n < pow2 (bit_length n)" by (simp add: pow2_def)
qed

lemma ilog2_bounds:
  assumes a: "0 < a"
  shows "pow2 (ilog2 a) \<le> a \<and> a < pow2 (ilog2 a + 1)"
proof -
  obtain p d where pd: "quotient_of a = (p, d)" by (cases "quotient_of a")
  have d: "0 < d" using quotient_of_denom_pos [OF pd] .
  have eq: "a = of_int p / of_int d" using quotient_of_div [OF pd] .
  have p: "0 < p" using a d by (simp add: eq zero_less_divide_iff)
  define k where "k = bit_length p - bit_length d"
  note P = pow2_of_bit_length [OF p]
  note D = pow2_of_bit_length [OF d]
  have dpos: "(0::rat) < of_int d" using d by simp
  have up: "a < pow2 (k + 1)"
  proof -
    have "rat_of_int p / of_int d < pow2 (bit_length p) / pow2 (bit_length d - 1)"
      using p P(2) D(1) by (intro frac_less) (simp_all add: pow2_pos)
    also have "\<dots> = pow2 (k + 1)"
    proof -
      have "pow2 (k + 1) * pow2 (bit_length d - 1) = pow2 (bit_length p)"
        by (simp add: k_def pow2_add [symmetric])
      then show ?thesis using pow2_pos [of "bit_length d - 1"] by (simp add: field_simps)
    qed
    finally show ?thesis by (simp add: eq)
  qed
  have lo: "pow2 (k - 1) \<le> a"
  proof -
    have "pow2 (k - 1) * pow2 (bit_length d) = pow2 (bit_length p - 1)"
      by (simp add: k_def pow2_add [symmetric])
    then have "pow2 (k - 1) = pow2 (bit_length p - 1) / pow2 (bit_length d)"
      using pow2_pos [of "bit_length d"] by (simp add: field_simps)
    also have "\<dots> \<le> rat_of_int p / of_int d"
      using p P(1) D(2) dpos by (intro frac_le) simp_all
    finally show ?thesis by (simp add: eq)
  qed
  have il: "ilog2 a = (if pow2 k \<le> a then k else k - 1)"
    by (simp add: ilog2_def pd k_def Let_def)
  show ?thesis
  proof (cases "pow2 k \<le> a")
    case True
    with up il show ?thesis by simp
  next
    case False
    with lo il show ?thesis by simp
  qed
qed

lemma pow2_numeral_53: "pow2 53 = 2 ^ 53" "pow2 52 = 2 ^ 52"
  by (simp_all add: pow2_def)

lemma round_to_double_error:
  assumes q0: "q \<noteq> 0" and lo: "pow2 (- 1022) \<le> \<bar>q\<bar>" and hi: "\<bar>q\<bar> < pow2 1023"
  shows "\<exists>v. round_to_double q = Fin v \<and> v \<noteq> 0 \<and> \<bar>v - q\<bar> \<le> \<bar>q\<bar> / 2 ^ 53"
proof -
  define a where "a = \<bar>q\<bar>"
  have a: "0 < a" using q0 by (simp add: a_def)
  define e where "e = ilog2 a"
  from ilog2_bounds [OF a] have pe: "pow2 e \<le> a" "a < pow2 (e + 1)" by (simp_all add: e_def)
  have e_lo: "- 1022 \<le> e"
  proof (rule ccontr)
    assume "\<not> - 1022 \<le> e"
    then have "e + 1 \<le> - 1022" by simp
    then have "pow2 (e + 1) \<le> pow2 (- 1022)" by (rule pow2_mono)
    with lo pe(2) show False by (simp add: a_def)
  qed
  have e_hi: "e \<le> 1022"
  proof (rule ccontr)
    assume "\<not> e \<le> 1022"
    then have "1023 \<le> e" by simp
    then have "pow2 1023 \<le> pow2 e" by (rule pow2_mono)
    with hi pe(1) show False by (simp add: a_def)
  qed
  have mx: "max e (- 1022) = e" using e_lo by simp
  define u where "u = pow2 (e - 52)"
  have u: "0 < u" by (simp add: u_def pow2_pos)
  have u53: "u * 2 ^ 53 = pow2 (e + 1)"
  proof -
    have "pow2 (e - 52 + 53) = pow2 (e - 52) * pow2 53" by (rule pow2_add)
    moreover have "e - 52 + 53 = e + 1" by simp
    ultimately have "pow2 (e - 52) * pow2 53 = pow2 (e + 1)" by (simp only:)
    then show ?thesis by (simp only: u_def pow2_numeral_53)
  qed
  have u52: "u * 2 ^ 52 = pow2 e"
  proof -
    have "pow2 (e - 52) * pow2 52 = pow2 (e - 52 + 52)" by (rule pow2_add [symmetric])
    then show ?thesis by (simp add: u_def pow2_numeral_53)
  qed
  define m where "m = round_half_even (a / u)"
  have near: "\<bar>a / u - of_int m\<bar> \<le> 1 / 2"
    using round_half_even_nearest [of "a / u"] by (simp add: m_def)
  have big: "2 ^ 52 \<le> a / u"
    using pe(1) u by (simp add: le_divide_eq u52 [symmetric] mult.commute)
  then have "1 \<le> a / u" by simp
  then have m1: "1 \<le> m" unfolding m_def by (rule round_half_even_ge_one)
  have small: "a / u < 2 ^ 53"
    using pe(2) u by (simp add: divide_less_eq u53 [symmetric] mult.commute)
  have "rat_of_int m < 2 ^ 53 + 1 / 2" using near small by linarith
  then have "rat_of_int m < of_int (2 ^ 53 + 1)" by simp
  then have "m < 2 ^ 53 + 1" by (simp only: of_int_less_iff)
  then have m53: "m \<le> 2 ^ 53" by simp
  define v where "v = of_int m * u"
  have vpos: "0 < v" using m1 u by (simp add: v_def)
  have "rat_of_int m \<le> 2 ^ 53" using m53 by (metis of_int_le_iff of_int_numeral of_int_power)
  then have "v \<le> 2 ^ 53 * u" using u by (simp add: v_def)
  also have "\<dots> = pow2 (e + 1)" using u53 by (simp add: mult.commute)
  also have "\<dots> \<le> pow2 1023" using e_hi by (intro pow2_mono) simp
  also have "\<dots> < pow2 1024" by (intro pow2_strict_mono) simp
  finally have noover: "\<not> pow2 1024 \<le> v" by simp
  have "v - a = (of_int m - a / u) * u" using u by (simp add: v_def field_simps)
  then have "\<bar>v - a\<bar> = \<bar>of_int m - a / u\<bar> * u" using u by (simp add: abs_mult)
  also have "\<dots> \<le> (1 / 2) * u"
  proof -
    have "\<bar>of_int m - a / u\<bar> \<le> 1 / 2" using near by (simp only: abs_minus_commute)
    then show ?thesis using u by (intro mult_right_mono) simp_all
  qed
  also have "\<dots> = pow2 e / 2 ^ 53" using u52 by (simp add: field_simps)
  also have "\<dots> \<le> a / 2 ^ 53" using pe(1) by (simp add: divide_right_mono)
  finally have err: "\<bar>v - a\<bar> \<le> a / 2 ^ 53" .
  have r: "round_to_double q = Fin (if 0 < q then v else - v)"
    using q0 noover vpos
    by (simp add: round_to_double_def Let_def a_def [symmetric] e_def [symmetric] mx
        u_def [symmetric] m_def [symmetric] v_def [symmetric])
  show ?thesis
  proof (cases "0 < q")
    case True
    then have "a = q" by (simp add: a_def)
    with err r True vpos show ?thesis by simp
  next
    case False
    with q0 have "q = - a" by (simp add: a_def)
    then have "\<bar>- v - q\<bar> = \<bar>v - a\<bar>" by simp
    with err r False vpos \<open>q = - a\<close> a show ?thesis by (simp del: abs_minus_cancel)
  qed
qed

lemma pow2_zero: "pow2 0 = 1"
  by (simp add: pow2_def)

lemma pow2_minus: "pow2 (- e) = 1 / pow2 e"
proof -
  have "pow2 (- e + e) = pow2 (- e) * pow2 e" by (rule pow2_add)
  then have "pow2 (- e) * pow2 e = 1" by (simp add: pow2_zero)
  then show ?thesis using pow2_pos [of e] by (simp add: field_simps)
qed

lemma moderate_py_float:
  "moderate a \<Longrightarrow>
     \<exists>f. py_float a = Inr f \<and> \<not> is_inf f \<and> \<not> is_nan f \<and> fin_val f = num_val a"
  by (cases a) (simp_all add: float_of_int_exact)

lemma moderate_range:
  assumes "moderate a"
  shows "num_val a = 0 \<or> (pow2 (- 500) \<le> \<bar>num_val a\<bar> \<and> \<bar>num_val a\<bar> \<le> pow2 500)"
proof (cases a)
  case (NInt i)
  show ?thesis
  proof (cases "int_val i = 0")
    case True
    with NInt show ?thesis by simp
  next
    case False
    then have "1 \<le> \<bar>int_val i\<bar>" by simp
    then have "(1::rat) \<le> of_int \<bar>int_val i\<bar>" by (simp only: of_int_1_le_iff)
    then have one: "(1::rat) \<le> \<bar>of_int (int_val i)\<bar>" by simp
    have "pow2 (- 500) \<le> pow2 0" by (rule pow2_mono) simp
    with one have lo: "pow2 (- 500) \<le> \<bar>rat_of_int (int_val i)\<bar>" by (simp add: pow2_zero)
    from assms NInt have "\<bar>int_val i\<bar> \<le> 2 ^ 53" by simp
    then have "rat_of_int \<bar>int_val i\<bar> \<le> of_int (2 ^ 53)" by (simp only: of_int_le_iff)
    then have "\<bar>rat_of_int (int_val i)\<bar> \<le> pow2 53" by (simp add: pow2_def)
    moreover have "pow2 53 \<le> pow2 500" by (rule pow2_mono) simp
    ultimately have hi: "\<bar>rat_of_int (int_val i)\<bar> \<le> pow2 500" by (rule order_trans)
    from lo hi NInt show ?thesis by simp
  qed
next
  case (NFloat f)
  with assms show ?thesis by simp
qed

lemma two_roundings:
  fixes t q y :: rat
  assumes "\<bar>q - t\<bar> \<le> \<bar>t\<bar> / 2 ^ 53" "\<bar>y - q\<bar> \<le> \<bar>q\<bar> / 2 ^ 53"
  shows "\<bar>y - t\<bar> \<le> \<bar>t\<bar> / 2 ^ 51"
proof -
  have "\<bar>t\<bar> / 2 ^ 53 \<le> \<bar>t\<bar>" by (simp add: field_simps)
  with assms(1) have "\<bar>q\<bar> \<le> 2 * \<bar>t\<bar>" by linarith
  then have "\<bar>q\<bar> / 2 ^ 53 \<le> 2 * \<bar>t\<bar> / 2 ^ 53" by (simp add: divide_right_mono)
  with assms have "\<bar>y - t\<bar> \<le> 2 * \<bar>t\<bar> / 2 ^ 53 + \<bar>t\<bar> / 2 ^ 53" by linarith
  also have "\<dots> \<le> \<bar>t\<bar> / 2 ^ 51" by (simp add: field_simps)
  finally show ?thesis .
qed

lemma reciprocal_close:
  assumes fin: "\<not> is_inf f" "\<not> is_nan f"
    and lo: "pow2 (- 500) \<le> \<bar>fin_val f\<bar>" and hi: "\<bar>fin_val f\<bar> \<le> pow2 500"
  shows "\<exists>r. float_truediv (Fin 1) f = Inr (Fin r) \<and> pow2 (- 501) \<le> \<bar>r\<bar> \<and> \<bar>r\<bar> \<le> pow2 501
    \<and> \<bar>r - 1 / fin_val f\<bar> \<le> \<bar>1 / fin_val f\<bar> / 2 ^ 53"
proof -
  define v where "v = fin_val f"
  have vpos: "0 < \<bar>v\<bar>" using lo pow2_pos [of "- 500"] by (simp add: v_def)
  then have v0: "v \<noteq> 0" by simp
  have nz: "\<not> is_zero f" using v0 by (cases f) (simp_all add: v_def)
  define q where "q = 1 / v"
  have q0: "q \<noteq> 0" using v0 by (simp add: q_def)
  have aq: "\<bar>q\<bar> = 1 / \<bar>v\<bar>" by (simp add: q_def)
  have qlo: "pow2 (- 500) \<le> \<bar>q\<bar>"
  proof -
    have "1 / pow2 500 \<le> 1 / \<bar>v\<bar>" using hi vpos by (simp add: v_def frac_le)
    then show ?thesis by (simp add: aq pow2_minus)
  qed
  have qhi: "\<bar>q\<bar> \<le> pow2 500"
  proof -
    have "1 / \<bar>v\<bar> \<le> 1 / pow2 (- 500)" using lo pow2_pos [of "- 500"] by (simp add: v_def frac_le)
    also have "\<dots> = pow2 500" by (simp add: pow2_minus)
    finally show ?thesis by (simp add: aq)
  qed
  have "pow2 (- 1022) \<le> pow2 (- 500)" by (rule pow2_mono) simp
  with qlo have l: "pow2 (- 1022) \<le> \<bar>q\<bar>" by linarith
  have "pow2 500 < pow2 1023" by (rule pow2_strict_mono) simp
  with qhi have h: "\<bar>q\<bar> < pow2 1023" by linarith
  from round_to_double_error [OF q0 l h] obtain r where
    r: "round_to_double q = Fin r" "r \<noteq> 0" "\<bar>r - q\<bar> \<le> \<bar>q\<bar> / 2 ^ 53" by blast
  have d: "float_truediv (Fin 1) f = Inr (Fin r)"
    using nz fin q0 r(1) by (simp add: float_truediv_def Let_def q_def v_def)
  have e: "\<bar>q\<bar> / 2 ^ 53 \<le> \<bar>q\<bar>" by (simp add: field_simps)
  have "\<bar>r\<bar> \<le> 2 * \<bar>q\<bar>" using r(3) e by linarith
  also have "\<dots> \<le> 2 * pow2 500" using qhi by simp
  also have "\<dots> = pow2 501" using pow2_add [of 1 500] by (simp add: pow2_def)
  finally have rhi: "\<bar>r\<bar> \<le> pow2 501" .
  have e2: "\<bar>q\<bar> / 2 ^ 53 \<le> \<bar>q\<bar> / 2" by (simp add: field_simps)
  have "pow2 (- 501) * 2 = pow2 (- 500)" using pow2_add [of "- 501" 1] by (simp add: pow2_def)
  then have "pow2 (- 501) = pow2 (- 500) / 2" by simp
  also have "\<dots> \<le> \<bar>q\<bar> / 2" using qlo by simp
  also have "\<dots> \<le> \<bar>r\<bar>" using r(3) e2 by linarith
  finally have rlo: "pow2 (- 501) \<le> \<bar>r\<bar>" .
  from d rlo rhi r(3) show ?thesis by (auto simp: q_def v_def)
qed

lemma float_mul_close:
  assumes fin: "\<not> is_inf f" "\<not> is_nan f"
    and rng: "fin_val f = 0 \<or> (pow2 (- 500) \<le> \<bar>fin_val f\<bar> \<and> \<bar>fin_val f\<bar> \<le> pow2 500)"
    and rlo: "pow2 (- 501) \<le> \<bar>r\<bar>" and rhi: "\<bar>r\<bar> \<le> pow2 501"
  shows "\<not> is_inf (float_mul f (Fin r)) \<and> \<not> is_nan (float_mul f (Fin r))
    \<and> \<bar>fin_val (float_mul f (Fin r)) - fin_val f * r\<bar> \<le> \<bar>fin_val f * r\<bar> / 2 ^ 53"
proof (cases "fin_val f = 0")
  case True
  with fin show ?thesis by (simp add: float_mul_def signed_zero_def)
next
  case False
  define v where "v = fin_val f"
  from False rng have lo: "pow2 (- 500) \<le> \<bar>v\<bar>" and hi: "\<bar>v\<bar> \<le> pow2 500"
    by (simp_all add: v_def)
  define q where "q = v * r"
  have rpos: "0 < \<bar>r\<bar>" using rlo pow2_pos [of "- 501"] by simp
  have q0: "q \<noteq> 0" using False rpos by (simp add: q_def v_def)
  have aq: "\<bar>q\<bar> = \<bar>v\<bar> * \<bar>r\<bar>" by (simp add: q_def abs_mult)
  have "pow2 (- 500) * pow2 (- 501) \<le> \<bar>v\<bar> * \<bar>r\<bar>"
    using lo rlo pow2_pos [of "- 500"] pow2_pos [of "- 501"] by (intro mult_mono) simp_all
  then have "pow2 (- 1001) \<le> \<bar>q\<bar>" using pow2_add [of "- 500" "- 501"] by (simp add: aq)
  moreover have "pow2 (- 1022) \<le> pow2 (- 1001)" by (rule pow2_mono) simp
  ultimately have l: "pow2 (- 1022) \<le> \<bar>q\<bar>" by linarith
  have "\<bar>v\<bar> * \<bar>r\<bar> \<le> pow2 500 * pow2 501"
    using hi rhi pow2_pos [of 500] by (intro mult_mono) simp_all
  then have "\<bar>q\<bar> \<le> pow2 1001" using pow2_add [of 500 501] by (simp add: aq)
  moreover have "pow2 1001 < pow2 1023" by (rule pow2_strict_mono) simp
  ultimately have h: "\<bar>q\<bar> < pow2 1023" by linarith
  from round_to_double_error [OF q0 l h] obtain y where
    y: "round_to_double q = Fin y" "\<bar>y - q\<bar> \<le> \<bar>q\<bar> / 2 ^ 53" by blast
  have "float_mul f (Fin r) = Fin y"
    using fin q0 y(1) by (simp add: float_mul_def Let_def q_def v_def)
  with y(2) show ?thesis by (simp add: q_def v_def)
qed

lemma num_mul_float_eq:
  "num_mul a (NFloat r) = bind_err (py_float a) (\<lambda>x. Inr (NFloat (float_mul x r)))"
  by (cases a) simp_all

lemma moderate_nonzero: "moderate s \<Longrightarrow> \<not> num_is_zero s \<Longrightarrow> num_val s \<noteq> 0"
proof (cases s)
  case (NInt i)
  assume "\<not> num_is_zero s"
  with NInt show ?thesis by simp
next
  case (NFloat f)
  assume "moderate s" "\<not> num_is_zero s"
  with NFloat show ?thesis by (cases f) simp_all
qed

lemma moderate_reciprocal:
  assumes "moderate s" "\<not> num_is_zero s"
  shows "\<exists>f r. py_float s = Inr f \<and> num_truediv (NInt (PInt 1)) f = Inr (Fin r)
    \<and> pow2 (- 501) \<le> \<bar>r\<bar> \<and> \<bar>r\<bar> \<le> pow2 501
    \<and> \<bar>r - 1 / num_val s\<bar> \<le> \<bar>1 / num_val s\<bar> / 2 ^ 53"
proof -
  from moderate_py_float [OF assms(1)] obtain f where
    f: "py_float s = Inr f" "\<not> is_inf f" "\<not> is_nan f" "fin_val f = num_val s" by blast
  from moderate_nonzero [OF assms] moderate_range [OF assms(1)]
  have rng: "pow2 (- 500) \<le> \<bar>fin_val f\<bar>" "\<bar>fin_val f\<bar> \<le> pow2 500" by (simp_all add: f(4))
  from reciprocal_close [OF f(2,3) rng] obtain r where
    r: "float_truediv (Fin 1) f = Inr (Fin r)" "pow2 (- 501) \<le> \<bar>r\<bar>" "\<bar>r\<bar> \<le> pow2 501"
      "\<bar>r - 1 / fin_val f\<bar> \<le> \<bar>1 / fin_val f\<bar> / 2 ^ 53" by blast
  have "num_truediv (NInt (PInt 1)) f = Inr (Fin r)"
    by (simp add: num_truediv_def float_of_int_1 r(1))
  with f(1) r(2,3,4) show ?thesis by (auto simp: f(4))
qed

lemma moderate_product:
  assumes a: "moderate a" and s0: "num_val s \<noteq> 0"
    and rlo: "pow2 (- 501) \<le> \<bar>r\<bar>" and rhi: "\<bar>r\<bar> \<le> pow2 501"
    and rerr: "\<bar>r - 1 / num_val s\<bar> \<le> \<bar>1 / num_val s\<bar> / 2 ^ 53"
  shows "\<exists>c. num_mul a (NFloat (Fin r)) = Inr (NFloat c)
    \<and> within_rounding c (num_val a / num_val s)"
proof -
  from moderate_py_float [OF a] obtain f where
    f: "py_float a = Inr f" "\<not> is_inf f" "\<not> is_nan f" "fin_val f = num_val a" by blast
  have rng: "fin_val f = 0 \<or> (pow2 (- 500) \<le> \<bar>fin_val f\<bar> \<and> \<bar>fin_val f\<bar> \<le> pow2 500)"
    using moderate_range [OF a] by (simp add: f(4))
  define c where "c = float_mul f (Fin r)"
  from float_mul_close [OF f(2,3) rng rlo rhi]
  have c: "\<not> is_inf c" "\<not> is_nan c"
    "\<bar>fin_val c - num_val a * r\<bar> \<le> \<bar>num_val a * r\<bar> / 2 ^ 53"
    by (simp_all add: c_def f(4))
  define t where "t = num_val a / num_val s"
  have "num_val a * r - t = num_val a * (r - 1 / num_val s)"
    by (simp add: t_def algebra_simps)
  then have "\<bar>num_val a * r - t\<bar> = \<bar>num_val a\<bar> * \<bar>r - 1 / num_val s\<bar>"
    by (simp add: abs_mult)
  also have "\<dots> \<le> \<bar>num_val a\<bar> * (\<bar>1 / num_val s\<bar> / 2 ^ 53)"
    using rerr by (intro mult_left_mono) simp_all
  also have "\<dots> = \<bar>t\<bar> / 2 ^ 53" by (simp add: t_def abs_mult abs_divide)
  finally have "\<bar>num_val a * r - t\<bar> \<le> \<bar>t\<bar> / 2 ^ 53" .
  from two_roundings [OF this c(3)] have "\<bar>fin_val c - t\<bar> \<le> \<bar>t\<bar> / 2 ^ 51" .
  with c(1,2) have "within_rounding c t" by (simp add: within_rounding_def)
  moreover have "num_mul a (NFloat (Fin r)) = Inr (NFloat c)"
    by (simp add: num_mul_float_eq f(1) c_def)
  ultimately show ?thesis by (auto simp: t_def)
qed

lemma Point2D_div_moderate:
  assumes "\<not> num_is_zero s" "moderate s" "moderate (Point2D_x p)" "moderate (Point2D_y p)"
  shows "\<exists>x y. Point2D_div p s = Inr (Point2D_float x y)
    \<and> within_rounding x (num_val (Point2D_x p) / num_val s)
    \<and> within_rounding y (num_val (Point2D_y p) / num_val s)"
proof -
  from moderate_reciprocal [OF assms(2,1)] obtain f r where
    r: "py_float s = Inr f" "num_truediv (NInt (PInt 1)) f = Inr (Fin r)"
      "pow2 (- 501) \<le> \<bar>r\<bar>" "\<bar>r\<bar> \<le> pow2 501"
      "\<bar>r - 1 / num_val s\<bar> \<le> \<bar>1 / num_val s\<bar> / 2 ^ 53" by blast
  note s0 = moderate_nonzero [OF assms(2,1)]
  from moderate_product [OF assms(3) s0 r(3,4,5)] obtain x where
    x: "num_mul (Point2D_x p) (NFloat (Fin r)) = Inr (NFloat x)"
      "within_rounding x (num_val (Point2D_x p) / num_val s)" by blast
  from moderate_product [OF assms(4) s0 r(3,4,5)] obtain y where
    y: "num_mul (Point2D_y p) (NFloat (Fin r)) = Inr (NFloat y)"
      "within_rounding y (num_val (Point2D_y p) / num_val s)" by blast
  have "Point2D_div p s = Inr (Point2D_float x y)"
    by (simp add: Point2D_div_def r(1,2) Point2D_mul_def x(1) y(1) Point2D_init_floats
        del: num_mul.simps)
  with x(2) y(2) show ?thesis by blast
qed

lemma Point3D_div_moderate:
  assumes "\<not> num_is_zero s" "moderate s"
    "moderate (Point3D_x p)" "moderate (Point3D_y p)" "moderate (Point3D_z p)"
  shows "\<exists>x y z. Point3D_div p s = Inr (Point3D_float x y z)
    \<and> within_rounding x (num_val (Point3D_x p) / num_val s)
    \<and> within_rounding y (num_val (Point3D_y p) / num_val s)
    \<and> within_rounding z (num_val (Point3D_z p) / num_val s)"
proof -
  from moderate_reciprocal [OF assms(2,1)] obtain f r where
    r: "py_float s = Inr f" "num_truediv (NInt (PInt 1)) f = Inr (Fin r)"
      "pow2 (- 501) \<le> \<bar>r\<bar>" "\<bar>r\<bar> \<le> pow2 501"
      "\<bar>r - 1 / num_val s\<bar> \<le> \<bar>1 / num_val s\<bar> / 2 ^ 53" by blast
  note s0 = moderate_nonzero [OF assms(2,1)]
  from moderate_product [OF assms(3) s0 r(3,4,5)] obtain x where
    x: "num_mul (Point3D_x p) (NFloat (Fin r)) = Inr (NFloat x)"
      "within_rounding x (num_val (Point3D_x p) / num_val s)" by blast
  from moderate_product [OF assms(4) s0 r(3,4,5)] obtain y where
    y: "num_mul (Point3D_y p) (NFloat (Fin r)) = Inr (NFloat y)"
      "within_rounding y (num_val (Point3D_y p) / num_val s)" by blast
  from moderate_product [OF assms(5) s0 r(3,4,5)] obtain z where
    z: "num_mul (Point3D_z p) (NFloat (Fin r)) = Inr (NFloat z)"
      "within_rounding z (num_val (Point3D_z p) / num_val s)" by blast
  have "Point3D_div p s = Inr (Point3D_float x y z)"
    by (simp add: Point3D_div_def r(1,2) Point3D_mul_def x(1) y(1) z(1) Point3D_init_floats
        del: num_mul.simps)
  with x(2) y(2) z(2) show ?thesis by blast
qed

text \<open>
  Claim C3 says that \<^verbatim>\<open>p / s\<close> yields a float-typed point for every point and every
  nonzero scalar. An int coordinate too large for a float makes the product raise
  \<^verbatim>\<open>OverflowError\<close>: \<^verbatim>\<open>Point2D(2**1025, 0) / 2\<close> returns no point (nor is the
  quotient \<open>2 ^ 1024\<close> a float).
\<close>

theorem scalar_division_counterexample:
  "Point2D_init (Num (NInt (PInt (2 ^ 1025)))) (Num (NInt (PInt 0)))
     = Inr (Point2D_int (PInt (2 ^ 1025)) (PInt 0))
   \<and> Point2D_div (Point2D_int (PInt (2 ^ 1025)) (PInt 0)) (NInt (PInt 2)) = Inl OverflowError"
  by code_simp

text \<open>
  The docstring says that scalar division uses true division, and the tests
  \<^verbatim>\<open>test_div_with_int\<close> and \<^verbatim>\<open>test_div_with_float\<close> compare \<^verbatim>\<open>p / 3\<close> with the
  quotients of the coordinates. \<^verbatim>\<open>__div__\<close> multiplies by the rounded reciprocal
  \<^verbatim>\<open>1/float(other)\<close> instead, and that is not always the quotient:
  \<^verbatim>\<open>Point2D(49, 0) / 49\<close> has \<^verbatim>\<open>x = 0.9999999999999999\<close> where \<^verbatim>\<open>49 / 49\<close> is
  \<^verbatim>\<open>1.0\<close>, and \<^verbatim>\<open>Point2D(0, 1) / 5e-324\<close> is \<^verbatim>\<open>(nan, inf)\<close>, the reciprocal of
  the smallest positive float being infinite.
\<close>

lemma division_by_reciprocal_example:
  "Point2D_div (Point2D_int (PInt 49) (PInt 0)) (NInt (PInt 49))
     = Inr (Point2D_float (Fin (9007199254740991 / 9007199254740992)) (Fin 0))
   \<and> round_to_double (49 / 49) = Fin 1
   \<and> Point2D_div (Point2D_int (PInt 0) (PInt 1)) (NFloat (Fin (1 / of_int (2 ^ 1074))))
     = Inr (Point2D_float NaN PosInf)"
  by code_simp

text \<open>
  Claim C3, amended. For every point \<^verbatim>\<open>p\<close> of either dtype and every nonzero number
  \<^verbatim>\<open>s\<close>, \<^verbatim>\<open>p / s\<close> returns a float-typed point, also when \<^verbatim>\<open>p\<close> is int-typed
  and \<^verbatim>\<open>s\<close> divides its coordinates, or raises \<^verbatim>\<open>OverflowError\<close>; it raises only
  when an int among \<^verbatim>\<open>s\<close> and the coordinates is too large for a float, never when
  they are at most \<open>2 ^ 53\<close> in magnitude. The division does not truncate: when
  \<^verbatim>\<open>s\<close> and the coordinates are of moderate size, a point is returned and each of
  its coordinates is the quotient of \<^verbatim>\<open>p\<close>'s coordinate by \<^verbatim>\<open>s\<close> up to rounding
  (a relative error of at most \<open>2 ^ -51\<close>). \<^verbatim>\<open>__truediv__\<close> is \<^verbatim>\<open>__div__\<close>.
\<close>

theorem scalar_division:
  assumes "\<not> num_is_zero s"
  shows "((Point2D_div p2 s = Inl OverflowError
        \<and> \<not> (fits_double s \<and> fits_double (Point2D_x p2) \<and> fits_double (Point2D_y p2)))
      \<or> (\<exists>x y. Point2D_div p2 s = Inr (Point2D_float x y)
            \<and> Point2D_dtype (Point2D_float x y) = ''float''))
    \<and> (moderate s \<and> moderate (Point2D_x p2) \<and> moderate (Point2D_y p2) \<longrightarrow>
        (\<exists>x y. Point2D_div p2 s = Inr (Point2D_float x y)
            \<and> within_rounding x (num_val (Point2D_x p2) / num_val s)
            \<and> within_rounding y (num_val (Point2D_y p2) / num_val s)))
    \<and> ((Point3D_div p3 s = Inl OverflowError
        \<and> \<not> (fits_double s \<and> fits_double (Point3D_x p3) \<and> fits_double (Point3D_y p3)
              \<and> fits_double (Point3D_z p3)))
      \<or> (\<exists>x y z. Point3D_div p3 s = Inr (Point3D_float x y z)
            \<and> Point3D_dtype (Point3D_float x y z) = ''float''))
    \<and> (moderate s \<and> moderate (Point3D_x p3) \<and> moderate (Point3D_y p3)
        \<and> moderate (Point3D_z p3) \<longrightarrow>
        (\<exists>x y z. Point3D_div p3 s = Inr (Point3D_float x y z)
            \<and> within_rounding x (num_val (Point3D_x p3) / num_val s)
            \<and> within_rounding y (num_val (Point3D_y p3) / num_val s)
            \<and> within_rounding z (num_val (Point3D_z p3) / num_val s)))
    \<and> Point2D_truediv p2 s = Point2D_div p2 s
    \<and> Point3D_truediv p3 s = Point3D_div p3 s"
proof -
  have a2: "(Point2D_div p2 s = Inl OverflowError
        \<and> \<not> (fits_double s \<and> fits_double (Point2D_x p2) \<and> fits_double (Point2D_y p2)))
      \<or> (\<exists>x y. Point2D_div p2 s = Inr (Point2D_float x y)
            \<and> Point2D_dtype (Point2D_float x y) = ''float'')"
    using Point2D_div_cases [OF assms, of p2] by auto
  have a3: "(Point3D_div p3 s = Inl OverflowError
        \<and> \<not> (fits_double s \<and> fits_double (Point3D_x p3) \<and> fits_double (Point3D_y p3)
              \<and> fits_double (Point3D_z p3)))
      \<or> (\<exists>x y z. Point3D_div p3 s = Inr (Point3D_float x y z)
            \<and> Point3D_dtype (Point3D_float x y z) = ''float'')"
    using Point3D_div_cases [OF assms, of p3] by auto
  have b2: "moderate s \<and> moderate (Point2D_x p2) \<and> moderate (Point2D_y p2) \<longrightarrow>
        (\<exists>x y. Point2D_div p2 s = Inr (Point2D_float x y)
            \<and> within_rounding x (num_val (Point2D_x p2) / num_val s)
            \<and> within_rounding y (num_val (Point2D_y p2) / num_val s))"
    using Point2D_div_moderate [OF assms, of p2] by blast
  have b3: "moderate s \<and> moderate (Point3D_x p3) \<and> moderate (Point3D_y p3)
        \<and> moderate (Point3D_z p3) \<longrightarrow>
        (\<exists>x y z. Point3D_div p3 s = Inr (Point3D_float x y z)
            \<and> within_rounding x (num_val (Point3D_x p3) / num_val s)
            \<and> within_rounding y (num_val (Point3D_y p3) / num_val s)
            \<and> within_rounding z (num_val (Point3D_z p3) / num_val s))"
    using Point3D_div_moderate [OF assms, of p3] by blast
  from a2 b2 a3 b3 show ?thesis
    by (simp only: Point2D_truediv_def Point3D_truediv_def simp_thms)
qed

theorem scalar_division_witness:
  "(\<exists>x y. Point2D_div (Point2D_int (PInt 3) (PInt 0)) (NInt (PInt 2)) = Inr (Point2D_float x y)
      \<and> within_rounding x (3 / 2) \<and> within_rounding y 0)
   \<and> (\<exists>x y z. Point3D_div (Point3D_int (PInt 2) (PInt 3) (PInt 4)) (NInt (PInt 3))
        = Inr (Point3D_float x y z)
      \<and> within_rounding x (2 / 3) \<and> within_rounding y 1 \<and> within_rounding z (4 / 3))"
  using scalar_division [of "NInt (PInt 2)" "Point2D_int (PInt 3) (PInt 0)"
      "Point3D_int (PInt 2) (PInt 3) (PInt 4)"]
    scalar_division [of "NInt (PInt 3)" "Point2D_int (PInt 3) (PInt 0)"
      "Point3D_int (PInt 2) (PInt 3) (PInt 4)"]
  by simp

section \<open>The textual representation\<close>

lemma digit_val_digit_char: "0 \<le> d \<Longrightarrow> d < 10 \<Longrightarrow> digit_val (digit_char d) = d"
proof -
  assume "0 \<le> d" "d < 10"
  then have "d = 0 \<or> d = 1 \<or> d = 2 \<or> d = 3 \<or> d = 4 \<or> d = 5 \<or> d = 6 \<or> d = 7 \<or> d = 8 \<or> d = 9"
    by arith
  then show ?thesis
    by (elim disjE) (simp_all add: digit_val_def digit_char_def)
qed

lemma digit_char_not_minus: "0 \<le> d \<Longrightarrow> d < 10 \<Longrightarrow> digit_char d \<noteq> CHR ''-''"
proof -
  assume "0 \<le> d" "d < 10"
  then have "d = 0 \<or> d = 1 \<or> d = 2 \<or> d = 3 \<or> d = 4 \<or> d = 5 \<or> d = 6 \<or> d = 7 \<or> d = 8 \<or> d = 9"
    by arith
  then show ?thesis
    by (elim disjE) (simp_all add: digit_char_def)
qed

lemma digits_val_snoc: "digits_val (s @ [c]) = 10 * digits_val s + digit_val c"
  by (simp add: digits_val_def)

lemma digits_val_dec_digits: "0 \<le> n \<Longrightarrow> digits_val (dec_digits n) = n"
proof (induction n rule: dec_digits.induct)
  case (1 n)
  show ?case
  proof (cases "n < 10")
    case True
    with 1(2) show ?thesis
      by (subst dec_digits.simps) (simp add: digits_val_def digit_val_digit_char)
  next
    case False
    with 1 have ih: "digits_val (dec_digits (n div 10)) = n div 10" by simp
    have m: "digit_val (digit_char (n mod 10)) = n mod 10"
      by (rule digit_val_digit_char) simp_all
    from False show ?thesis
      by (subst dec_digits.simps) (simp add: digits_val_snoc ih m)
  qed
qed

lemma dec_digits_head:
  "0 \<le> n \<Longrightarrow> \<exists>c s. dec_digits n = c # s \<and> c \<noteq> CHR ''-''"
proof (induction n rule: dec_digits.induct)
  case (1 n)
  show ?case
  proof (cases "n < 10")
    case True
    with 1(2) show ?thesis
      by (subst dec_digits.simps) (simp add: digit_char_not_minus)
  next
    case False
    with 1 obtain c s where "dec_digits (n div 10) = c # s" "c \<noteq> CHR ''-''" by fastforce
    with False show ?thesis
      by (subst dec_digits.simps) simp
  qed
qed

lemma dec_val_dec_string: "dec_val (dec_string n) = n"
proof (cases "n < 0")
  case True
  then show ?thesis by (simp add: dec_string_def digits_val_dec_digits)
next
  case False
  then have "0 \<le> n" by simp
  from dec_digits_head [OF this] obtain c s where cs: "dec_digits n = c # s" "c \<noteq> CHR ''-''"
    by blast
  have "dec_val (dec_digits n) = digits_val (dec_digits n)" by (simp add: cs)
  with False \<open>0 \<le> n\<close> show ?thesis by (simp add: dec_string_def digits_val_dec_digits)
qed

lemma dec_digits_length_le:
  "0 \<le> n \<Longrightarrow> n < 10 ^ k \<Longrightarrow> 0 < k \<Longrightarrow> length (dec_digits n) \<le> k"
proof (induction n arbitrary: k rule: dec_digits.induct)
  case (1 n)
  show ?case
  proof (cases "n < 10")
    case True
    with 1(4) show ?thesis by (subst dec_digits.simps) simp
  next
    case False
    have k1: "1 < k"
    proof (rule ccontr)
      assume "\<not> 1 < k"
      with 1(4) have "k = 1" by simp
      with 1(3) False show False by simp
    qed
    then obtain j where j: "k = Suc j" "0 < j" by (cases k) auto
    from 1(3) j have "n < 10 * 10 ^ j" by simp
    then have "n div 10 < 10 ^ j" by simp
    moreover have "0 \<le> n div 10" using 1(2) by simp
    ultimately have "length (dec_digits (n div 10)) \<le> j"
      using 1(1) [OF False] j(2) by simp
    with False j show ?thesis by (subst dec_digits.simps) simp
  qed
qed

lemma dec_digits_length_gt: "10 ^ k \<le> n \<Longrightarrow> k < length (dec_digits n)"
proof (induction n arbitrary: k rule: dec_digits.induct)
  case (1 n)
  show ?case
  proof (cases "n < 10")
    case True
    have "k = 0"
    proof (rule ccontr)
      assume "k \<noteq> 0"
      then obtain j where "k = Suc j" by (cases k) auto
      then have "(10::int) \<le> 10 ^ k" by simp
      with 1(2) True show False by simp
    qed
    with True show ?thesis by (subst dec_digits.simps) simp
  next
    case False
    show ?thesis
    proof (cases k)
      case 0
      with False show ?thesis by (subst dec_digits.simps) simp
    next
      case (Suc j)
      with 1(2) have "10 * 10 ^ j \<le> n" by simp
      then have "10 ^ j \<le> n div 10" by simp
      then have "j < length (dec_digits (n div 10))" using 1(1) [OF False] by simp
      with False Suc show ?thesis by (subst dec_digits.simps) simp
    qed
  qed
qed

lemma str_of_int_within_limit:
  "\<bar>n\<bar> < 10 ^ int_max_str_digits \<Longrightarrow> str_of_int n = Inr (dec_string n)"
proof -
  assume a: "\<bar>n\<bar> < 10 ^ int_max_str_digits"
  have "0 < int_max_str_digits" by (simp add: int_max_str_digits_def)
  with a have "length (dec_digits \<bar>n\<bar>) \<le> int_max_str_digits"
    by (intro dec_digits_length_le) simp_all
  then show ?thesis by (simp add: str_of_int_def)
qed

lemma str_of_int_over_limit:
  "10 ^ int_max_str_digits \<le> \<bar>n\<bar> \<Longrightarrow> str_of_int n = Inl ValueError"
  using dec_digits_length_gt [of int_max_str_digits "\<bar>n\<bar>"] by (simp add: str_of_int_def)

lemma str_of_pyint_printable: "printable i \<Longrightarrow> str_of_pyint i = Inr (pyint_text i)"
  by (cases i) (simp_all add: str_of_int_within_limit)

lemma small_int_printable: "\<bar>n\<bar> < 10 \<Longrightarrow> printable (PInt n)"
proof -
  assume "\<bar>n\<bar> < 10"
  moreover have "(10::int) ^ 1 \<le> 10 ^ int_max_str_digits"
    by (rule power_increasing) (simp_all add: int_max_str_digits_def)
  ultimately show ?thesis by simp
qed

text \<open>
  Claim C6 says that a float coordinate is printed with two decimals, a tie rounded
  away from zero, and an int coordinate as an exact integer. \<^verbatim>\<open>'{:.2f}'.format\<close>
  rounds the exact binary value to the nearest decimal, a tie going to the even digit:
  \<^verbatim>\<open>0.125\<close> is printed \<^verbatim>\<open>0.12\<close>, where rounding away from zero gives
  \<^verbatim>\<open>0.13\<close>. And \<^verbatim>\<open>'{}'.format\<close> refuses an int of more than 4300 digits: the
  representation of \<^verbatim>\<open>Point2D(10**4300, 0)\<close> is a \<^verbatim>\<open>ValueError\<close>.
\<close>

theorem repr_format_counterexample:
  "Point2D_repr (Point2D_float (Fin (1 / 8)) (Fin 0))
     = Inr ''<Point2D(x=0.12, y=0.00, dtype=float)>''
   \<and> spec_format_2f (1 / 8) = ''0.13''
   \<and> Point2D_repr (Point2D_int (PInt (10 ^ int_max_str_digits)) (PInt 0)) = Inl ValueError"
proof -
  have a: "Point2D_repr (Point2D_float (Fin (1 / 8)) (Fin 0))
     = Inr ''<Point2D(x=0.12, y=0.00, dtype=float)>''
   \<and> spec_format_2f (1 / 8) = ''0.13''"
    by code_simp
  have "str_of_int (10 ^ int_max_str_digits) = Inl ValueError"
    by (rule str_of_int_over_limit) simp
  then have b: "Point2D_repr (Point2D_int (PInt (10 ^ int_max_str_digits)) (PInt 0))
      = Inl ValueError"
    by (simp add: Point2D_repr_def)
  from a b show ?thesis by simp
qed

text \<open>
  The float branch of \<^verbatim>\<open>Point3D.__repr__\<close> prints the class name of the other class;
  the repository's tests \<^verbatim>\<open>test_repr_float\<close> and \<^verbatim>\<open>test_unit_vector\<close> expect it.
\<close>

lemma Point3D_repr_float_example:
  "Point3D_repr (Point3D_float (Fin 1) (Fin 2) (Fin 3))
     = Inr ''<Point2D(x=1.00, y=2.00, z=3.00, dtype=float)>''"
  by code_simp

text \<open>
  Claim C6, amended. The representation of a \<^verbatim>\<open>Point2D\<close> is
  \<^verbatim>\<open><Point2D(x=X, y=Y, dtype=D)>\<close>, that of an int-typed \<^verbatim>\<open>Point3D\<close> is
  \<^verbatim>\<open><Point3D(x=X, y=Y, z=Z, dtype=D)>\<close>, and that of a float-typed
  \<^verbatim>\<open>Point3D\<close> is \<^verbatim>\<open>(x=X, y=Y, z=Z, dtype=D)>\<close> after \<^verbatim>\<open><\<close> and the name of one
  of the module's two classes. With dtype \<^verbatim>\<open>int\<close>, and every int coordinate of at
  most 4300 decimal digits, an int coordinate is printed as its exact decimal numeral
  (reading it back gives the int) and a bool coordinate as \<^verbatim>\<open>True\<close> or
  \<^verbatim>\<open>False\<close>. With dtype \<^verbatim>\<open>float\<close> a finite coordinate is printed with its sign,
  the integer part and exactly two digits after the point: the hundredths nearest to
  the exact value, a tie going to the even one.
\<close>

theorem repr_format:
  "(printable i \<and> printable j \<longrightarrow>
      Point2D_repr (Point2D_int i j)
        = Inr (''<Point2D(x='' @ pyint_text i @ '', y='' @ pyint_text j @ '', dtype=int)>''))
   \<and> (printable i \<and> printable j \<and> printable k \<longrightarrow>
      Point3D_repr (Point3D_int i j k)
        = Inr (''<Point3D(x='' @ pyint_text i @ '', y='' @ pyint_text j @ '', z=''
               @ pyint_text k @ '', dtype=int)>''))
   \<and> Point2D_repr (Point2D_float a b)
        = Inr (''<Point2D(x='' @ format_2f a @ '', y='' @ format_2f b @ '', dtype=float)>'')
   \<and> (\<exists>name. (name = ''Point3D'' \<or> name = ''Point2D'')
        \<and> Point3D_repr (Point3D_float a b c)
            = Inr (''<'' @ name @ ''(x='' @ format_2f a @ '', y='' @ format_2f b @ '', z=''
                   @ format_2f c @ '', dtype=float)>''))
   \<and> dec_val (pyint_text (PInt n)) = n
   \<and> (\<exists>m. format_2f (Fin q)
          = (if q < 0 then ''-'' else []) @ dec_string (m div 100) @ ''.''
            @ [digit_char (m mod 100 div 10), digit_char (m mod 10)]
        \<and> 0 \<le> m
        \<and> \<bar>\<bar>q\<bar> * 100 - of_int m\<bar> \<le> 1 / 2
        \<and> (\<bar>\<bar>q\<bar> * 100 - of_int m\<bar> = 1 / 2 \<longrightarrow> even m))"
proof -
  have p3: "\<exists>name. (name = ''Point3D'' \<or> name = ''Point2D'')
        \<and> Point3D_repr (Point3D_float a b c)
            = Inr (''<'' @ name @ ''(x='' @ format_2f a @ '', y='' @ format_2f b @ '', z=''
                   @ format_2f c @ '', dtype=float)>'')"
    by (rule exI [of _ "''Point2D''"]) (simp add: Point3D_repr_def)
  define m where "m = round_half_even (\<bar>q\<bar> * 100)"
  have near: "\<bar>\<bar>q\<bar> * 100 - of_int m\<bar> \<le> 1 / 2
      \<and> (\<bar>\<bar>q\<bar> * 100 - of_int m\<bar> = 1 / 2 \<longrightarrow> even m)"
    unfolding m_def by (rule round_half_even_nearest)
  have "- (1 / 2) \<le> of_int m - \<bar>q\<bar> * 100" using near by linarith
  moreover have "0 \<le> \<bar>q\<bar> * 100" by simp
  ultimately have "(- 1 :: rat) < of_int m" by linarith
  then have "- 1 < m" by (simp only: of_int_less_iff [symmetric] of_int_minus of_int_1)
  then have m0: "0 \<le> m" by simp
  then have d0: "0 \<le> m div 100" by simp
  have f: "format_2f (Fin q)
          = (if q < 0 then ''-'' else []) @ dec_string (m div 100) @ ''.''
            @ [digit_char (m mod 100 div 10), digit_char (m mod 10)]"
    using d0 by (simp add: format_2f_def m_def Let_def dec_string_def)
  have q: "\<exists>m. format_2f (Fin q)
          = (if q < 0 then ''-'' else []) @ dec_string (m div 100) @ ''.''
            @ [digit_char (m mod 100 div 10), digit_char (m mod 10)]
        \<and> 0 \<le> m
        \<and> \<bar>\<bar>q\<bar> * 100 - of_int m\<bar> \<le> 1 / 2
        \<and> (\<bar>\<bar>q\<bar> * 100 - of_int m\<bar> = 1 / 2 \<longrightarrow> even m)"
    using f m0 near by blast
  from p3 q show ?thesis
    by (simp add: Point2D_repr_def Point3D_repr_def dec_val_dec_string str_of_pyint_printable)
qed

theorem repr_format_witness:
  "Point2D_repr (Point2D_int (PInt 3) (PInt (- 4))) = Inr ''<Point2D(x=3, y=-4, dtype=int)>''
   \<and> Point3D_repr (Point3D_int (PInt 1) (PInt 2) (PBool True))
       = Inr ''<Point3D(x=1, y=2, z=True, dtype=int)>''
   \<and> Point2D_repr (Point2D_float (Fin (3 / 2)) (Fin 0))
       = Inr ''<Point2D(x=1.50, y=0.00, dtype=float)>''"
proof -
  have s: "dec_string 3 = ''3''" "dec_string (- 4) = ''-4''"
    "dec_string 1 = ''1''" "dec_string 2 = ''2''"
    "format_2f (Fin (3 / 2)) = ''1.50''" "format_2f (Fin 0) = ''0.00''"
    by code_simp+
  have p: "printable (PInt 3)" "printable (PInt (- 4))" "printable (PInt 1)"
    "printable (PInt 2)"
    by (rule small_int_printable, simp)+
  show ?thesis
    using repr_format [of "PInt 3" "PInt (- 4)" "PInt 3" "Fin (3 / 2)" "Fin 0" "Fin 0" 0 0]
      repr_format [of "PInt 1" "PInt 2" "PBool True" "Fin (3 / 2)" "Fin 0" "Fin 0" 0 0]
    using p by (simp add: s)
qed

section \<open>The repository's own examples\<close>

text \<open>
  The examples of the module's docstring and of \<^verbatim>\<open>tests/Point3D_unit_tests.py\<close>,
  evaluated on the embedding: it prints, divides, normalises and compares as they expect.
\<close>

lemma docstring_division:
  "bind_err (Point2D_div (Point2D_int (PInt 3) (PInt 0)) (NInt (PInt 2)))
       Point2D_repr
     = Inr ''<Point2D(x=1.50, y=0.00, dtype=float)>''"
  by code_simp

lemma docstring_unit_vector:
  "bind_err (Point2D_unit_vector rounded_square (Point2D_int (PInt 3) (PInt 4))) Point2D_repr
     = Inr ''<Point2D(x=0.60, y=0.80, dtype=float)>''
   \<and> Point2D_magnitude rounded_square (Point2D_int (PInt 3) (PInt 4)) = Inr (Fin 5)"
  by code_simp

lemma test_repr_int:
  "Point3D_repr (Point3D_int (PInt 1) (PInt 2) (PInt 3))
     = Inr ''<Point3D(x=1, y=2, z=3, dtype=int)>''"
  by code_simp

lemma test_repr_float:
  "bind_err (Point3D_init (Num (NFloat (round_to_double (133333333333333 / 100000000000000))))
        (Num (NFloat (round_to_double (266666666667 / 100000000000)))) (Num (NFloat (Fin 3))))
       Point3D_repr
     = Inr ''<Point2D(x=1.33, y=2.67, z=3.00, dtype=float)>''"
  by code_simp

lemma test_unit_vector:
  "bind_err (Point3D_unit_vector rounded_square (Point3D_int (PInt 2) (PInt 3) (PInt 4)))
       Point3D_repr
     = Inr ''<Point2D(x=0.37, y=0.56, z=0.74, dtype=float)>''"
  by code_simp

lemma test_div_with_int:
  "bind_err (Point3D_div (Point3D_int (PInt 2) (PInt 3) (PInt 4)) (NInt (PInt 3)))
       (\<lambda>p. Inr (Point3D_dtype p = ''float''
          \<and> Point3D_eq p (Point3D_float (round_to_double (2 / 3)) (round_to_double (3 / 3))
                (round_to_double (4 / 3)))))
     = Inr True"
  by code_simp

lemma test_Point3D_of_different_dtypes_not_equal:
  "\<not> Point3D_eq (Point3D_int (PInt 1) (PInt 2) (PInt 3)) (Point3D_float (Fin 1) (Fin 2) (Fin 3))"
  by code_simp

lemma test_astype_invalid_type:
  "Point3D_astype (Point3D_int (PInt 5) (PInt 8) (PInt 10)) ''Idontexist'' = Inl RuntimeError"
  by code_simp

end
